theory Spec2Isabelle
  imports Complex_Main
begin

section \<open>Strings and characters\<close>

text \<open>
  The program is TypeScript: its strings are sequences of UTF-16 code units. They are
  modelled as \<open>string\<close>, a list of 8-bit code units (0 to 255, the Latin-1 range);
  code units above 255 are outside the model. Numbers that the code only compares
  (fitness, confidence) are \<open>real\<close>; years, months and days are \<open>nat\<close>.
  The current year \<open>new Date().getFullYear()\<close> is the parameter \<open>now\<close>.
\<close>

definition isDigit :: "char \<Rightarrow> bool" where
  "isDigit c = (c \<in> set ''0123456789'')"

definition isUpper :: "char \<Rightarrow> bool" where
  "isUpper c = (c \<in> set ''ABCDEFGHIJKLMNOPQRSTUVWXYZ'')"

definition isLower :: "char \<Rightarrow> bool" where
  "isLower c = (c \<in> set ''abcdefghijklmnopqrstuvwxyz'')"

definition isAlpha :: "char \<Rightarrow> bool" where
  "isAlpha c = (isUpper c \<or> isLower c)"

text \<open>The class \<open>\w\<close>, which also decides the word boundary \<open>\b\<close>.\<close>

definition isWordChar :: "char \<Rightarrow> bool" where
  "isWordChar c = (isAlpha c \<or> isDigit c \<or> c = CHR ''_'')"

text \<open>The class \<open>\s\<close> on 8-bit code units: TAB, LF, VT, FF, CR, space, NBSP.\<close>

definition isSpace :: "char \<Rightarrow> bool" where
  "isSpace c = (c \<in> {CHR 0x09, CHR 0x0A, CHR 0x0B, CHR 0x0C, CHR 0x0D, CHR 0x20, CHR 0xA0})"

text \<open>
  Case mapping on 8-bit code units: the ASCII capitals, and the Latin-1 capitals
  (0xC0 to 0xDE without the multiplication sign 0xD7), each 32 below its small letter.
\<close>

definition asciiCaseTable :: "(char \<times> char) list" where
  "asciiCaseTable =
     [(CHR ''A'', CHR ''a''), (CHR ''B'', CHR ''b''), (CHR ''C'', CHR ''c''),
      (CHR ''D'', CHR ''d''), (CHR ''E'', CHR ''e''), (CHR ''F'', CHR ''f''),
      (CHR ''G'', CHR ''g''), (CHR ''H'', CHR ''h''), (CHR ''I'', CHR ''i''),
      (CHR ''J'', CHR ''j''), (CHR ''K'', CHR ''k''), (CHR ''L'', CHR ''l''),
      (CHR ''M'', CHR ''m''), (CHR ''N'', CHR ''n''), (CHR ''O'', CHR ''o''),
      (CHR ''P'', CHR ''p''), (CHR ''Q'', CHR ''q''), (CHR ''R'', CHR ''r''),
      (CHR ''S'', CHR ''s''), (CHR ''T'', CHR ''t''), (CHR ''U'', CHR ''u''),
      (CHR ''V'', CHR ''v''), (CHR ''W'', CHR ''w''), (CHR ''X'', CHR ''x''),
      (CHR ''Y'', CHR ''y''), (CHR ''Z'', CHR ''z'')]"

definition latin1CaseTable :: "(char \<times> char) list" where
  "latin1CaseTable =
     [(CHR 0xC0, CHR 0xE0), (CHR 0xC1, CHR 0xE1), (CHR 0xC2, CHR 0xE2),
      (CHR 0xC3, CHR 0xE3), (CHR 0xC4, CHR 0xE4), (CHR 0xC5, CHR 0xE5),
      (CHR 0xC6, CHR 0xE6), (CHR 0xC7, CHR 0xE7), (CHR 0xC8, CHR 0xE8),
      (CHR 0xC9, CHR 0xE9), (CHR 0xCA, CHR 0xEA), (CHR 0xCB, CHR 0xEB),
      (CHR 0xCC, CHR 0xEC), (CHR 0xCD, CHR 0xED), (CHR 0xCE, CHR 0xEE),
      (CHR 0xCF, CHR 0xEF), (CHR 0xD0, CHR 0xF0), (CHR 0xD1, CHR 0xF1),
      (CHR 0xD2, CHR 0xF2), (CHR 0xD3, CHR 0xF3), (CHR 0xD4, CHR 0xF4),
      (CHR 0xD5, CHR 0xF5), (CHR 0xD6, CHR 0xF6), (CHR 0xD8, CHR 0xF8),
      (CHR 0xD9, CHR 0xF9), (CHR 0xDA, CHR 0xFA), (CHR 0xDB, CHR 0xFB),
      (CHR 0xDC, CHR 0xFC), (CHR 0xDD, CHR 0xFD), (CHR 0xDE, CHR 0xFE)]"

text \<open>\<open>String.prototype.toLowerCase\<close> on 8-bit code units.\<close>

definition lowerChar :: "char \<Rightarrow> char" where
  "lowerChar c = (case map_of (asciiCaseTable @ latin1CaseTable) c of None \<Rightarrow> c | Some l \<Rightarrow> l)"

definition toLowerCase :: "string \<Rightarrow> string" where
  "toLowerCase s = map lowerChar s"

text \<open>
  A pattern letter under the flag \<open>i\<close>: only the ASCII letters fold (a code unit
  above 127 never matches an ASCII pattern letter).
\<close>

definition foldAscii :: "char \<Rightarrow> char" where
  "foldAscii c = (case map_of asciiCaseTable c of None \<Rightarrow> c | Some l \<Rightarrow> l)"

definition digitVal :: "char \<Rightarrow> nat" where
  "digitVal c = (of_char c :: nat) - 48"

text \<open>
  \<open>parseInt(s, 10)\<close> and unary \<open>+s\<close> on a string of decimal digits (every call
  site passes a regex group made of \<open>\d\<close> only).
\<close>

definition parseInt :: "string \<Rightarrow> nat" where
  "parseInt s = foldl (\<lambda>n c. 10 * n + digitVal c) 0 s"

definition digitChar :: "nat \<Rightarrow> char" where
  "digitChar n = ''0123456789'' ! n"

text \<open>\<open>String(n)\<close> and the template literal of a non-negative integer.\<close>

fun stringOfNat :: "nat \<Rightarrow> string" where
  "stringOfNat n = (if n < 10 then [digitChar n] else stringOfNat (n div 10) @ [digitChar (n mod 10)])"

declare stringOfNat.simps [simp del]

text \<open>\<open>s.padStart(n, "0")\<close>.\<close>

definition padStart :: "nat \<Rightarrow> string \<Rightarrow> string" where
  "padStart n s = replicate (n - length s) (CHR ''0'') @ s"

text \<open>\<open>s.includes(p)\<close>.\<close>

fun includesStr :: "string \<Rightarrow> string \<Rightarrow> bool" where
  "includesStr [] p = (p = [])"
| "includesStr (c # cs) p = (take (length p) (c # cs) = p \<or> includesStr cs p)"

text \<open>\<open>s.trim()\<close>.\<close>

definition trim :: "string \<Rightarrow> string" where
  "trim s = rev (dropWhile isSpace (rev (dropWhile isSpace s)))"

section \<open>Regular expressions\<close>

text \<open>
  The regular expressions that the program tests, matches or replaces are
  transcribed into the datatype \<open>rx\<close>, over the character classes \<open>cls\<close>. A
  matcher state is the position reached, the character before it (none at the start
  of the string), the rest of the string and the capture groups bound so far.
  \<open>ends r st\<close> lists the states in which a match of \<open>r\<close> that starts in state
  \<open>st\<close> can end, in the order in which a backtracking matcher finds them
  (alternatives left to right, \<open>*\<close> greedy, an iteration of \<open>*\<close> never empty):
  the head of the list is the end of the match that JavaScript reports.
\<close>

datatype cls =
    CIs char
  | CIsI char
  | CDigit
  | CSpace
  | CUpper
  | CLower
  | CWord
  | COneOf string
  | CLowerOr string
  | CSpaceOr string

text \<open>\<open>CIsI c\<close> is the letter \<open>c\<close>, given folded, under the flag \<open>i\<close>.\<close>

fun inCls :: "cls \<Rightarrow> char \<Rightarrow> bool" where
  "inCls (CIs c) x = (x = c)"
| "inCls (CIsI c) x = (foldAscii x = c)"
| "inCls CDigit x = isDigit x"
| "inCls CSpace x = isSpace x"
| "inCls CUpper x = isUpper x"
| "inCls CLower x = isLower x"
| "inCls CWord x = isWordChar x"
| "inCls (COneOf cs) x = (x \<in> set cs)"
| "inCls (CLowerOr cs) x = (isLower x \<or> x \<in> set cs)"
| "inCls (CSpaceOr cs) x = (isSpace x \<or> x \<in> set cs)"

text \<open>\<open>Grp n r\<close> is the capture group number \<open>n\<close>; no pattern here has a group
  under a repetition.\<close>

datatype rx =
    Chr cls
  | Eps
  | Seq rx rx
  | Alt rx rx
  | Star rx
  | WordB
  | Bol
  | Eol
  | Grp nat rx

type_synonym mstate = "nat \<times> char option \<times> string \<times> (nat \<times> string) list"

fun star_ends :: "(mstate \<Rightarrow> mstate list) \<Rightarrow> nat \<Rightarrow> mstate \<Rightarrow> mstate list" where
  "star_ends f 0 st = [st]"
| "star_ends f (Suc n) (i, p, s, g) =
     concat (map (star_ends f n) (filter (\<lambda>st'. i < fst st') (f (i, p, s, g)))) @ [(i, p, s, g)]"

definition wordAt :: "string \<Rightarrow> bool" where
  "wordAt s = (case s of [] \<Rightarrow> False | c # cs \<Rightarrow> isWordChar c)"

definition wordBefore :: "char option \<Rightarrow> bool" where
  "wordBefore p = (case p of None \<Rightarrow> False | Some c \<Rightarrow> isWordChar c)"

text \<open>Binding group \<open>n\<close> to the text between position \<open>i\<close>, where the rest of the
  string was \<open>s\<close>, and the end state.\<close>

fun bindGroup :: "nat \<Rightarrow> nat \<Rightarrow> string \<Rightarrow> mstate \<Rightarrow> mstate" where
  "bindGroup n i s (j, p, s', g) = (j, p, s', (n, take (j - i) s) # g)"

fun ends :: "rx \<Rightarrow> mstate \<Rightarrow> mstate list" where
  "ends (Chr k) (i, p, s, g) =
     (case s of [] \<Rightarrow> [] | c # cs \<Rightarrow> if inCls k c then [(Suc i, Some c, cs, g)] else [])"
| "ends Eps (i, p, s, g) = [(i, p, s, g)]"
| "ends (Seq a b) (i, p, s, g) = concat (map (ends b) (ends a (i, p, s, g)))"
| "ends (Alt a b) (i, p, s, g) = ends a (i, p, s, g) @ ends b (i, p, s, g)"
| "ends (Star a) (i, p, s, g) = star_ends (ends a) (length s) (i, p, s, g)"
| "ends WordB (i, p, s, g) = (if wordBefore p \<noteq> wordAt s then [(i, p, s, g)] else [])"
| "ends Bol (i, p, s, g) = (if i = 0 then [(i, p, s, g)] else [])"
| "ends Eol (i, p, s, g) = (if s = [] then [(i, p, s, g)] else [])"
| "ends (Grp n a) (i, p, s, g) = map (bindGroup n i s) (ends a (i, p, s, g))"

text \<open>
  \<open>s.match(re)\<close> and \<open>re.exec(s)\<close> without the flag \<open>g\<close>: the leftmost position
  from which the pattern matches, with the groups of the first match found there.
\<close>

fun matchFrom :: "rx \<Rightarrow> nat \<Rightarrow> char option \<Rightarrow> string \<Rightarrow> (nat \<times> (nat \<times> string) list) option" where
  "matchFrom r i p [] =
     (case ends r (i, p, [], []) of [] \<Rightarrow> None | (j, p', s', g) # more \<Rightarrow> Some (i, g))"
| "matchFrom r i p (c # cs) =
     (case ends r (i, p, c # cs, []) of
        [] \<Rightarrow> matchFrom r (Suc i) (Some c) cs
      | (j, p', s', g) # more \<Rightarrow> Some (i, g))"

definition matchRx :: "rx \<Rightarrow> string \<Rightarrow> (nat \<times> (nat \<times> string) list) option" where
  "matchRx r s = matchFrom r 0 None s"

text \<open>\<open>m[n]\<close> of a match: the text of group \<open>n\<close>, \<open>None\<close> when it took no part.\<close>

definition group :: "(nat \<times> string) list \<Rightarrow> nat \<Rightarrow> string option" where
  "group g n = map_of g n"

text \<open>\<open>re.test(s)\<close> for a regular expression without the flag \<open>g\<close>.\<close>

definition test :: "rx \<Rightarrow> string \<Rightarrow> bool" where
  "test r s = (matchRx r s \<noteq> None)"

text \<open>\<open>res.some(re => re.test(s))\<close>.\<close>

fun testAny :: "rx list \<Rightarrow> string \<Rightarrow> bool" where
  "testAny [] s = False"
| "testAny (r # rs) s = (if test r s then True else testAny rs s)"

text \<open>
  \<open>s.replace(re, rep)\<close> for a regular expression with the flag \<open>g\<close>: every
  match from left to right is replaced; after an empty match the next character is
  copied. The string is the rest from position \<open>i\<close>, \<open>p\<close> the character before it.
\<close>

fun replaceAllFrom :: "rx \<Rightarrow> string \<Rightarrow> nat \<Rightarrow> char option \<Rightarrow> string \<Rightarrow> string" where
  "replaceAllFrom r rep i p [] = (if ends r (i, p, [], []) \<noteq> [] then rep else [])"
| "replaceAllFrom r rep i p (c # cs) =
     (case ends r (i, p, c # cs, []) of
        [] \<Rightarrow> c # replaceAllFrom r rep (Suc i) (Some c) cs
      | (j, p', s', g) # more \<Rightarrow>
          if i < j then rep @ replaceAllFrom r rep j p' (drop (j - i) (c # cs))
          else rep @ c # replaceAllFrom r rep (Suc i) (Some c) cs)"

definition replaceAll :: "rx \<Rightarrow> string \<Rightarrow> string \<Rightarrow> string" where
  "replaceAll r rep s = replaceAllFrom r rep 0 None s"

text \<open>\<open>s.replace(re, rep)\<close> without the flag \<open>g\<close>: the leftmost match only.\<close>

fun replaceFirstFrom :: "rx \<Rightarrow> string \<Rightarrow> nat \<Rightarrow> char option \<Rightarrow> string \<Rightarrow> string" where
  "replaceFirstFrom r rep i p [] = (if ends r (i, p, [], []) \<noteq> [] then rep else [])"
| "replaceFirstFrom r rep i p (c # cs) =
     (case ends r (i, p, c # cs, []) of
        [] \<Rightarrow> c # replaceFirstFrom r rep (Suc i) (Some c) cs
      | (j, p', s', g) # more \<Rightarrow> rep @ drop (j - i) (c # cs))"

definition replaceFirst :: "rx \<Rightarrow> string \<Rightarrow> string \<Rightarrow> string" where
  "replaceFirst r rep s = replaceFirstFrom r rep 0 None s"

text \<open>Pattern constructors: literals, literals under the flag \<open>i\<close>, classes, repetition.\<close>

fun Lit :: "string \<Rightarrow> rx" where
  "Lit [] = Eps"
| "Lit (c # cs) = Seq (Chr (CIs c)) (Lit cs)"

fun LitI :: "string \<Rightarrow> rx" where
  "LitI [] = Eps"
| "LitI (c # cs) = Seq (Chr (CIsI (foldAscii c))) (LitI cs)"

definition OneOf :: "string \<Rightarrow> rx" where
  "OneOf cs = Chr (COneOf cs)"

definition Opt :: "rx \<Rightarrow> rx" where
  "Opt r = Alt r Eps"

definition Plus :: "rx \<Rightarrow> rx" where
  "Plus r = Seq r (Star r)"

fun Seqs :: "rx list \<Rightarrow> rx" where
  "Seqs [] = Eps"
| "Seqs [r] = r"
| "Seqs (r # rs) = Seq r (Seqs rs)"

fun Alts :: "rx list \<Rightarrow> rx" where
  "Alts [] = Chr (COneOf [])"
| "Alts [r] = r"
| "Alts (r # rs) = Alt r (Alts rs)"

definition Digit :: rx where
  "Digit = Chr CDigit"

definition Space :: rx where
  "Space = Chr CSpace"

text \<open>\<open>\d{1,2}\<close>, greedy.\<close>

definition Digit12 :: rx where
  "Digit12 = Seq Digit (Opt Digit)"

definition Digit2 :: rx where
  "Digit2 = Seq Digit Digit"

definition Digit4 :: rx where
  "Digit4 = Seqs [Digit, Digit, Digit, Digit]"

section \<open>types.ts\<close>

record Sections =
  headerText :: "string option"
  body :: "string option"

record 'a Field =
  fvalue :: "'a option"
  confidence :: real
  provenance :: string

text \<open>\<open>x || ""\<close> on an optional string.\<close>

definition orEmpty :: "string option \<Rightarrow> string" where
  "orEmpty x = (case x of None \<Rightarrow> [] | Some s \<Rightarrow> s)"

section \<open>utils.ts: toISODate\<close>

definition isSep :: "char \<Rightarrow> bool" where
  "isSep c = (c \<in> set ''-/.'')"

text \<open>The group \<open>(20\d{2}|19\d{2})\<close> at the head of a string: the year and the rest.\<close>

fun yearAt :: "string \<Rightarrow> (string \<times> string) option" where
  "yearAt (a # b # c # d # r) =
     (if ([a, b] = ''20'' \<or> [a, b] = ''19'') \<and> isDigit c \<and> isDigit d
      then Some ([a, b, c, d], r) else None)"
| "yearAt _ = None"

text \<open>\<open>(\d{1,2})[-\/.]\<close>: two digits when a separator follows them, else one digit
  and a separator.\<close>

fun digits12Sep :: "string \<Rightarrow> (string \<times> string) option" where
  "digits12Sep (a # b # c # r) =
     (if isDigit a \<and> isDigit b \<and> isSep c then Some ([a, b], r)
      else if isDigit a \<and> isSep b then Some ([a], c # r) else None)"
| "digits12Sep [a, b] = (if isDigit a \<and> isSep b then Some ([a], []) else None)"
| "digits12Sep _ = None"

text \<open>\<open>(\d{1,2})\<close> with nothing required after it: greedy.\<close>

fun digits12 :: "string \<Rightarrow> (string \<times> string) option" where
  "digits12 (a # b # r) =
     (if isDigit a \<and> isDigit b then Some ([a, b], r)
      else if isDigit a then Some ([a], b # r) else None)"
| "digits12 [a] = (if isDigit a then Some ([a], []) else None)"
| "digits12 [] = None"

text \<open>\<open>/(20\d{2}|19\d{2})[-\/.](\d{1,2})[-\/.](\d{1,2})/\<close> matched at the head of
  the string: the three groups.\<close>

definition isoDateAt :: "string \<Rightarrow> (string \<times> string \<times> string) option" where
  "isoDateAt s =
     (case yearAt s of None \<Rightarrow> None
      | Some (y, r1) \<Rightarrow>
         (case r1 of [] \<Rightarrow> None
          | sep # r2 \<Rightarrow>
             if \<not> isSep sep then None
             else (case digits12Sep r2 of None \<Rightarrow> None
                   | Some (mo, r3) \<Rightarrow>
                      (case digits12 r3 of None \<Rightarrow> None
                       | Some (d, r4) \<Rightarrow> Some (y, mo, d)))))"

text \<open>\<open>s.match(re)\<close>: the leftmost position where the pattern matches.\<close>

fun firstMatch :: "(string \<Rightarrow> 'a option) \<Rightarrow> string \<Rightarrow> 'a option" where
  "firstMatch f [] = f []"
| "firstMatch f (c # cs) = (case f (c # cs) of Some r \<Rightarrow> Some r | None \<Rightarrow> firstMatch f cs)"

definition toISODate :: "string option \<Rightarrow> string option" where
  "toISODate s0 =
     (case s0 of None \<Rightarrow> None
      | Some s \<Rightarrow>
         if s = [] then None
         else (case firstMatch isoDateAt s of
                 Some (y, mo, d) \<Rightarrow> Some (padStart 4 y @ ''-'' @ padStart 2 mo @ ''-'' @ padStart 2 d)
               | None \<Rightarrow>
                  (case firstMatch yearAt s of
                     Some (y, r) \<Rightarrow> Some (y @ ''-01-01'')
                   | None \<Rightarrow> None)))"

section \<open>ensemble.ts: date evidence and sanitizer\<close>

text \<open>
  \<open>hasPostedDateEvidence\<close>: the pattern
  \<open>verb\s*[:\--]?\s*(?:dateMDY|dateDMY|dateISO)\<close> under the flag \<open>i\<close>, tested
  on the lower-cased header and body joined by a newline. The en dash of the
  class is a code unit above 255 and cannot occur in a modelled string.
\<close>

definition evidenceVerb :: rx where
  "evidenceVerb = Alts
     [LitI ''posted'',
      Seqs [LitI ''this'', Plus Space, LitI ''version'', Plus Space, LitI ''posted''],
      Seq (LitI ''published'') (Opt (Seq (Plus Space) (LitI ''online''))),
      LitI ''accepted'',
      LitI ''received'',
      Seqs [LitI ''available'', Plus Space, LitI ''online''],
      Seqs [LitI ''first'', Plus Space, LitI ''published''],
      Seq (LitI ''epub'')
        (Opt (Seqs [Plus Space, LitI ''ahead'', Plus Space, LitI ''of'', Plus Space, LitI ''print'']))]"

definition evidenceMonth :: rx where
  "evidenceMonth = Alts
     [Seq (LitI ''jan'') (Opt (LitI ''uary'')),
      Seq (LitI ''feb'') (Opt (LitI ''ruary'')),
      Seq (LitI ''mar'') (Opt (LitI ''ch'')),
      Seq (LitI ''apr'') (Opt (LitI ''il'')),
      LitI ''may'',
      Seq (LitI ''jun'') (Opt (LitI ''e'')),
      Seq (LitI ''jul'') (Opt (LitI ''y'')),
      Seq (LitI ''aug'') (Opt (LitI ''ust'')),
      Seq (LitI ''sep'') (Opt (Alt (LitI ''t'') (LitI ''tember''))),
      Seq (LitI ''oct'') (Opt (LitI ''ober'')),
      Seq (LitI ''nov'') (Opt (LitI ''ember'')),
      Seq (LitI ''dec'') (Opt (LitI ''ember''))]"

definition evidenceMDY :: rx where
  "evidenceMDY = Seqs [evidenceMonth, Plus Space, Digit12, Lit '','', Star Space, Digit4]"

definition evidenceDMY :: rx where
  "evidenceDMY = Seqs [Digit12, Plus Space, evidenceMonth, Plus Space, Digit4]"

definition evidenceISO :: rx where
  "evidenceISO = Seqs [Digit4, Lit ''-'', Digit2, Lit ''-'', Digit2]"

definition evidencePat :: rx where
  "evidencePat = Seqs [evidenceVerb, Star Space, Opt (OneOf '':-''), Star Space,
     Alts [evidenceMDY, evidenceDMY, evidenceISO]]"

definition hasPostedDateEvidence :: "Sections \<Rightarrow> bool" where
  "hasPostedDateEvidence sections =
     (let t = toLowerCase (orEmpty (headerText sections) @ [CHR 0x0A] @ orEmpty (body sections))
      in test evidencePat t)"

text \<open>The anchored shapes \<open>/^\d{4}$/\<close>, \<open>/^\d{4}-\d{2}$/\<close> and \<open>/^\d{4}-\d{2}-\d{2}$/\<close>.\<close>

definition reYear :: "string \<Rightarrow> bool" where
  "reYear s = (length s = 4 \<and> list_all isDigit s)"

definition reYearMonth :: "string \<Rightarrow> bool" where
  "reYearMonth s = (length s = 7 \<and> list_all isDigit (take 4 s) \<and> s ! 4 = CHR ''-''
     \<and> list_all isDigit (drop 5 s))"

definition reDay :: "string \<Rightarrow> bool" where
  "reDay s = (length s = 10 \<and> list_all isDigit (take 4 s) \<and> s ! 4 = CHR ''-''
     \<and> list_all isDigit (take 2 (drop 5 s)) \<and> s ! 7 = CHR ''-'' \<and> list_all isDigit (drop 8 s))"

text \<open>\<open>/^(\d{4})(?:-(\d{2})(?:-(\d{2}))?)?$/\<close>, and the same shape without groups.\<close>

definition isoLike :: "string \<Rightarrow> bool" where
  "isoLike s = (reYear s \<or> reYearMonth s \<or> reDay s)"

text \<open>\<open>isoStr.match(/^(\d{4}-\d{2})-/)\<close>: group 1.\<close>

definition ymPrefix :: "string \<Rightarrow> string option" where
  "ymPrefix s =
     (if 8 \<le> length s \<and> list_all isDigit (take 4 s) \<and> s ! 4 = CHR ''-''
         \<and> list_all isDigit (take 2 (drop 5 s)) \<and> s ! 7 = CHR ''-''
      then Some (take 7 s) else None)"

text \<open>
  The calendar behind \<open>Date\<close>: the Gregorian rule, and the constructor's mapping of
  the years 0 to 99 onto 1900 to 1999. Local time is taken without a gap at midnight.
\<close>

definition isLeap :: "nat \<Rightarrow> bool" where
  "isLeap y = (y mod 4 = 0 \<and> (y mod 100 \<noteq> 0 \<or> y mod 400 = 0))"

definition daysInMonth :: "nat \<Rightarrow> nat \<Rightarrow> nat" where
  "daysInMonth y m =
     (if m = 2 then (if isLeap y then 29 else 28)
      else if m \<in> {4, 6, 9, 11} then 30 else 31)"

definition jsFullYear :: "nat \<Rightarrow> nat" where
  "jsFullYear y = (if y < 100 then 1900 + y else y)"

text \<open>
  \<open>new Date(year, monthIndex, day)\<close> read back as (getFullYear, getMonth, getDate),
  for a month index in 0 to 11 and a day in 1 to 31 (the caller checks both): a day
  past the end of the month rolls into the next month.
\<close>

definition jsDate :: "nat \<Rightarrow> nat \<Rightarrow> nat \<Rightarrow> nat \<times> nat \<times> nat" where
  "jsDate year mi day =
     (let Y = jsFullYear year; dim = daysInMonth Y (mi + 1) in
      if day \<le> dim then (Y, mi, day)
      else if mi = 11 then (Y + 1, 0, day - dim)
      else (Y, mi + 1, day - dim))"

definition isValidISO :: "string \<Rightarrow> bool" where
  "isValidISO isoStr =
     (if reYear isoStr then True
      else if \<not> (reYearMonth isoStr \<or> reDay isoStr) then False
      else
        (let year = parseInt (take 4 isoStr);
             month = parseInt (take 2 (drop 5 isoStr));
             day = (if reDay isoStr then Some (parseInt (drop 8 isoStr)) else None)
         in if month < 1 \<or> 12 < month then False
            else (case day of
                    None \<Rightarrow> True
                  | Some d \<Rightarrow>
                      if d < 1 \<or> 31 < d then False
                      else if jsDate year (month - 1) d \<noteq> (year, month - 1, d) then False
                      else True)))"

text \<open>
  The constant \<open>iso\<close> of \<open>sanitizeDocumentDate\<close>:
  \<open>isoLike.test(dateStr) ? dateStr : (toISODate(dateStr || undefined) || null)\<close>.
\<close>

definition normalizeDate :: "string \<Rightarrow> string option" where
  "normalizeDate ds = (if isoLike ds then Some ds else toISODate (Some ds))"

definition sanitizeDocumentDate :: "nat \<Rightarrow> string option \<Rightarrow> Sections \<Rightarrow> bool \<Rightarrow> string option" where
  "sanitizeDocumentDate now dateStr sections forceAcceptDayFromHeader =
     (case dateStr of
        None \<Rightarrow> None
      | Some ds \<Rightarrow>
          if ds = [] then None
          else
            (case normalizeDate ds of
               None \<Rightarrow> None
             | Some isoStr \<Rightarrow>
                 if isoStr = [] then None
                 else if \<not> isoLike isoStr then None
                 else
                   (let y = parseInt (take 4 isoStr) in
                    if y < 1900 \<or> now + 1 < y then None
                    else if reDay isoStr \<and> \<not> hasPostedDateEvidence sections
                            \<and> \<not> forceAcceptDayFromHeader
                    then (case ymPrefix isoStr of Some ym \<Rightarrow> Some ym | None \<Rightarrow> Some (stringOfNat y))
                    else if isValidISO isoStr then Some isoStr else None)))"

section \<open>Example inputs\<close>

text \<open>A header and a body that hold no cue verb followed by a date.\<close>

definition plainSections :: Sections where
  "plainSections = \<lparr>headerText = Some ''no evidence'', body = Some ''no evidence''\<rparr>"

section \<open>ensemble.ts: chooseField\<close>

text \<open>A JavaScript exception, as a value.\<close>

datatype error = TypeError

text \<open>\<open>x || 0\<close> on a number.\<close>

definition orZero :: "real \<Rightarrow> real" where
  "orZero x = (if x = 0 then 0 else x)"

text \<open>The test of the loop body: does candidate \<open>c\<close> replace the current best?\<close>

definition replaces :: "('a option \<Rightarrow> real) \<Rightarrow> 'a Field \<Rightarrow> 'a Field \<Rightarrow> bool" where
  "replaces fitness c best =
     (let fBest = fitness (fvalue best); fCand = fitness (fvalue c) in
      fBest < fCand \<or> (fCand = fBest \<and> orZero (confidence best) < orZero (confidence c)))"

fun chooseLoop :: "('a option \<Rightarrow> real) \<Rightarrow> 'a Field \<Rightarrow> 'a Field list \<Rightarrow> 'a Field" where
  "chooseLoop fitness best [] = best"
| "chooseLoop fitness best (c # cs) =
     chooseLoop fitness (if replaces fitness c best then c else best) cs"

text \<open>
  \<open>cands[0]\<close> of an empty array is \<open>undefined\<close>, and the final
  \<open>best.provenance\<close> then throws a TypeError.
\<close>

definition chooseField :: "'a Field list \<Rightarrow> ('a option \<Rightarrow> real) \<Rightarrow> error + 'a Field" where
  "chooseField cands fitness =
     (case cands of
        [] \<Rightarrow> Inl TypeError
      | best # rest \<Rightarrow> Inr (chooseLoop fitness best rest))"

text \<open>Three date candidates, the last two tied on fitness and confidence.\<close>

definition exampleFitness :: "string option \<Rightarrow> real" where
  "exampleFitness v = (case v of None \<Rightarrow> 0 | Some s \<Rightarrow> if reYearMonth s then 0.8 else 0.6)"

definition exampleCands :: "string Field list" where
  "exampleCands =
     [\<lparr>fvalue = Some ''2023'', confidence = 0.92, provenance = ''heuristic''\<rparr>,
      \<lparr>fvalue = Some ''2024-05'', confidence = 0.7, provenance = ''llm''\<rparr>,
      \<lparr>fvalue = Some ''2024-06'', confidence = 0.7, provenance = ''grobid''\<rparr>]"

section \<open>parsers/pdf.ts: date helpers\<close>

definition monthToMM :: "string \<Rightarrow> string option" where
  "monthToMM m = map_of
     [(''january'', ''01''), (''february'', ''02''), (''march'', ''03''), (''april'', ''04''),
      (''may'', ''05''), (''june'', ''06''), (''july'', ''07''), (''august'', ''08''),
      (''september'', ''09''), (''sept'', ''09''), (''october'', ''10''),
      (''november'', ''11''), (''december'', ''12'')] (toLowerCase m)"

text \<open>\<open>new Date(y, m, 0).getDate()\<close> is the number of days of month \<open>m\<close> (1 to 12).\<close>

definition isValidYMD :: "nat \<Rightarrow> nat \<Rightarrow> nat \<Rightarrow> bool" where
  "isValidYMD y m d =
     (if m < 1 \<or> 12 < m then False
      else (let dim = daysInMonth (jsFullYear y) m in 1 \<le> d \<and> d \<le> dim))"

text \<open>
  \<open>parseInt(s, 10)\<close> on a regex group that may hold letters: the leading digits
  after white space, \<open>None\<close> for NaN when there is none (a group holds no sign).
\<close>

definition parseIntPrefix :: "string \<Rightarrow> nat option" where
  "parseIntPrefix s =
     (let ds = takeWhile isDigit (dropWhile isSpace s) in
      if ds = [] then None else Some (parseInt ds))"

text \<open>
  \<open>toISO(y, m?, d?)\<close>, called with regex groups; an absent argument is \<open>None\<close>
  and an empty one is falsy. A day that is NaN fails \<open>isValidYMD\<close>.
\<close>

definition toISO :: "nat \<Rightarrow> string \<Rightarrow> string option \<Rightarrow> string option \<Rightarrow> string option" where
  "toISO now y m d =
     (case parseIntPrefix y of
        None \<Rightarrow> None
      | Some Y \<Rightarrow>
          if Y < 1900 \<or> now + 1 < Y then None
          else (case m of
                  None \<Rightarrow> Some (stringOfNat Y)
                | Some mname \<Rightarrow>
                    if mname = [] then Some (stringOfNat Y)
                    else (case monthToMM mname of
                            None \<Rightarrow> Some (stringOfNat Y)
                          | Some mm \<Rightarrow>
                              (case d of
                                 None \<Rightarrow> Some (stringOfNat Y @ ''-'' @ mm)
                               | Some ds \<Rightarrow>
                                   if ds = [] then Some (stringOfNat Y @ ''-'' @ mm)
                                   else (case parseIntPrefix ds of
                                           None \<Rightarrow> None
                                         | Some D \<Rightarrow>
                                             if \<not> isValidYMD Y (parseInt mm)
                                                   (parseInt (padStart 2 (stringOfNat D)))
                                             then None
                                             else Some (stringOfNat Y @ ''-'' @ mm @ ''-''
                                                        @ padStart 2 (stringOfNat D)))))))"

text \<open>
  The word boundary \<open>\b\<close> between the previous character (\<open>pw\<close>: it is a word
  character; false at the start of the string) and the rest of the string.
\<close>

definition boundaryAt :: "bool \<Rightarrow> string \<Rightarrow> bool" where
  "boundaryAt pw s = (pw \<noteq> (case s of [] \<Rightarrow> False | c # cs \<Rightarrow> isWordChar c))"

text \<open>\<open>s.match(re)\<close> for a pattern that looks at the character before the match.\<close>

fun firstMatchB :: "(bool \<Rightarrow> string \<Rightarrow> 'a option) \<Rightarrow> bool \<Rightarrow> string \<Rightarrow> 'a option" where
  "firstMatchB f pw [] = f pw []"
| "firstMatchB f pw (c # cs) =
     (case f pw (c # cs) of Some r \<Rightarrow> Some r | None \<Rightarrow> firstMatchB f (isWordChar c) cs)"

text \<open>\<open>(\d{1,2})\b\<close>: two digits when a boundary follows them, else one digit and a boundary.\<close>

fun digits12B :: "string \<Rightarrow> (string \<times> string) option" where
  "digits12B (a # b # r) =
     (if isDigit a \<and> isDigit b \<and> boundaryAt True r then Some ([a, b], r)
      else if isDigit a \<and> boundaryAt True (b # r) then Some ([a], b # r) else None)"
| "digits12B [a] = (if isDigit a then Some ([a], []) else None)"
| "digits12B [] = None"

text \<open>\<open>/\b(20\d{2}|19\d{2})[-\/.](\d{1,2})[-\/.](\d{1,2})\b/\<close> at the head of the string.\<close>

definition numYMDAt :: "bool \<Rightarrow> string \<Rightarrow> (string \<times> string \<times> string) option" where
  "numYMDAt pw s =
     (if \<not> boundaryAt pw s then None
      else (case yearAt s of None \<Rightarrow> None
            | Some (y, r1) \<Rightarrow>
               (case r1 of [] \<Rightarrow> None
                | sep # r2 \<Rightarrow>
                   if \<not> isSep sep then None
                   else (case digits12Sep r2 of None \<Rightarrow> None
                         | Some (mo, r3) \<Rightarrow>
                            (case digits12B r3 of None \<Rightarrow> None
                             | Some (d, r4) \<Rightarrow> Some (y, mo, d))))))"

text \<open>\<open>/\b(\d{1,2})[-\/.](\d{1,2})[-\/.](20\d{2}|19\d{2})\b/\<close> at the head of the string.\<close>

definition numABYAt :: "bool \<Rightarrow> string \<Rightarrow> (string \<times> string \<times> string) option" where
  "numABYAt pw s =
     (if \<not> boundaryAt pw s then None
      else (case digits12Sep s of None \<Rightarrow> None
            | Some (a, r1) \<Rightarrow>
               (case digits12Sep r1 of None \<Rightarrow> None
                | Some (b, r2) \<Rightarrow>
                   (case yearAt r2 of None \<Rightarrow> None
                    | Some (y, r3) \<Rightarrow> if boundaryAt True r3 then Some (a, b, y) else None))))"

text \<open>\<open>/\b(20\d{2}|19\d{2})[-\/.](\d{1,2})\b/\<close> at the head of the string.\<close>

definition numYMAt :: "bool \<Rightarrow> string \<Rightarrow> (string \<times> string) option" where
  "numYMAt pw s =
     (if \<not> boundaryAt pw s then None
      else (case yearAt s of None \<Rightarrow> None
            | Some (y, r1) \<Rightarrow>
               (case r1 of [] \<Rightarrow> None
                | sep # r2 \<Rightarrow>
                   if \<not> isSep sep then None
                   else (case digits12B r2 of None \<Rightarrow> None
                         | Some (mo, r3) \<Rightarrow> Some (y, mo)))))"

text \<open>\<open>/\b(20\d{2}|19\d{2})\b/\<close> at the head of the string.\<close>

definition numYAt :: "bool \<Rightarrow> string \<Rightarrow> string option" where
  "numYAt pw s =
     (if \<not> boundaryAt pw s then None
      else (case yearAt s of None \<Rightarrow> None
            | Some (y, r1) \<Rightarrow> if boundaryAt True r1 then Some y else None))"

text \<open>The four attempts of \<open>parseNumericDate\<close>, each returning or falling through.\<close>

definition numericISO :: "string \<Rightarrow> string option" where
  "numericISO s =
     (case firstMatchB numYMDAt False s of
        None \<Rightarrow> None
      | Some (y, mo, d) \<Rightarrow>
          (let Y = parseInt y; M = parseInt mo; D = parseInt d in
           if isValidYMD Y M D
           then Some (stringOfNat Y @ ''-'' @ padStart 2 (stringOfNat M) @ ''-'' @ padStart 2 (stringOfNat D))
           else None))"

definition numericABY :: "string \<Rightarrow> string option" where
  "numericABY s =
     (case firstMatchB numABYAt False s of
        None \<Rightarrow> None
      | Some (ga, gb, gy) \<Rightarrow>
          (let a = parseInt ga; b = parseInt gb; Y = parseInt gy in
           if 12 < a \<and> isValidYMD Y b a
           then Some (stringOfNat Y @ ''-'' @ padStart 2 (stringOfNat b) @ ''-'' @ padStart 2 (stringOfNat a))
           else if 12 < b \<and> isValidYMD Y a b
           then Some (stringOfNat Y @ ''-'' @ padStart 2 (stringOfNat a) @ ''-'' @ padStart 2 (stringOfNat b))
           else if 1 \<le> a \<and> a \<le> 12
           then Some (stringOfNat Y @ ''-'' @ padStart 2 (stringOfNat a))
           else None))"

definition numericYM :: "string \<Rightarrow> string option" where
  "numericYM s =
     (case firstMatchB numYMAt False s of
        None \<Rightarrow> None
      | Some (y, mo) \<Rightarrow>
          (let Y = parseInt y; M = parseInt mo in
           if 1 \<le> M \<and> M \<le> 12 then Some (stringOfNat Y @ ''-'' @ padStart 2 (stringOfNat M))
           else None))"

definition numericY :: "string \<Rightarrow> string option" where
  "numericY s = firstMatchB numYAt False s"

definition parseNumericDate :: "string \<Rightarrow> string option" where
  "parseNumericDate s =
     (case numericISO s of Some r \<Rightarrow> Some r
      | None \<Rightarrow>
         (case numericABY s of Some r \<Rightarrow> Some r
          | None \<Rightarrow>
             (case numericYM s of Some r \<Rightarrow> Some r
              | None \<Rightarrow> numericY s)))"

section \<open>parsers/pdf.ts: sliceAuthorZone\<close>

text \<open>\<open>header.split(/\r?\n/)\<close>: pieces between line feeds, a carriage return just
  before a line feed belonging to the separator.\<close>

fun splitLF :: "string \<Rightarrow> string list" where
  "splitLF [] = [[]]"
| "splitLF (c # cs) =
     (if c = CHR 0x0A then [] # splitLF cs
      else (case splitLF cs of [] \<Rightarrow> [[c]] | l # ls \<Rightarrow> (c # l) # ls))"

definition dropLastCR :: "string \<Rightarrow> string" where
  "dropLastCR l = (if l \<noteq> [] \<and> last l = CHR 0x0D then butlast l else l)"

definition splitLines :: "string \<Rightarrow> string list" where
  "splitLines s = (let ps = splitLF s in map dropLastCR (butlast ps) @ [last ps])"

text \<open>\<open>s.split(/\s+/)\<close>; the flag says that the previous character was white space.\<close>

fun splitWsAux :: "bool \<Rightarrow> string \<Rightarrow> string list" where
  "splitWsAux inSp [] = [[]]"
| "splitWsAux inSp (c # cs) =
     (if isSpace c then (if inSp then splitWsAux True cs else [] # splitWsAux True cs)
      else (case splitWsAux False cs of [] \<Rightarrow> [[c]] | l # ls \<Rightarrow> (c # l) # ls))"

definition splitWs :: "string \<Rightarrow> string list" where
  "splitWs s = splitWsAux False s"

text \<open>\<open>xs.join("\n")\<close>.\<close>

fun joinLF :: "string list \<Rightarrow> string" where
  "joinLF [] = []"
| "joinLF [l] = l"
| "joinLF (l # ls) = l @ [CHR 0x0A] @ joinLF ls"

text \<open>\<open>header.split(/\r?\n/).map(s => s.trim()).filter(Boolean)\<close>.\<close>

definition zoneLines :: "string \<Rightarrow> string list" where
  "zoneLines header = filter (\<lambda>l. l \<noteq> []) (map trim (splitLines header))"

definition stopCues :: "rx list" where
  "stopCues =
     [Seqs [Bol, LitI ''abstract'', WordB],
      Seqs [Bol, LitI ''summary'', WordB],
      Seqs [Bol, LitI ''keyword'', Opt (LitI ''s''), WordB],
      Seqs [Bol, LitI ''jel'', WordB],
      Seqs [Bol, LitI ''article '', Alts [LitI ''info'', LitI ''information'', LitI ''history''], WordB],
      Seqs [Bol, LitI ''references'', WordB],
      Seqs [Bol, LitI ''bibliography'', WordB],
      Seqs [Bol, LitI ''introduction'', WordB]]"

definition isStopCue :: "string \<Rightarrow> bool" where
  "isStopCue s = testAny stopCues s"

definition ignoreAsTitle :: "rx list" where
  "ignoreAsTitle =
     [LitI ''electronic copy available at'',
      Seqs [LitI ''this '', Alt (LitI ''paper'') (LitI ''version''), LitI '' '',
            Opt (LitI ''was ''), LitI ''posted''],
      LitI ''ssrn'',
      Seqs [Bol, LitI ''open access'', Eol]]"

definition AFFIL_CUES :: "rx list" where
  "AFFIL_CUES =
     [Seqs [WordB,
            Alts [LitI ''section'', LitI ''department'', LitI ''dept'', LitI ''school'',
                  LitI ''college'', LitI ''faculty'', LitI ''division'', LitI ''unit'',
                  LitI ''institute'', LitI ''center'', LitI ''centre'', LitI ''laboratory'',
                  LitI ''lab'', LitI ''hospital'', LitI ''nhs''],
            WordB],
      Seqs [WordB, LitI ''university'', WordB],
      Alts [Seqs [WordB, LitI ''imperial'', WordB], Seqs [WordB, LitI ''london'', WordB],
            Seqs [WordB, LitI ''uk'', WordB]],
      Alts [Seqs [WordB, LitI ''campus'', WordB], Seqs [WordB, LitI ''road'', WordB],
            Seqs [WordB, LitI ''st'', Opt (Lit ''.''), WordB],
            Seqs [WordB, LitI ''street'', WordB], Seqs [WordB, LitI ''road'', WordB]],
      Alts [Seqs [WordB, LitI ''chelsea'', WordB], Seqs [WordB, LitI ''sw'', Digit12, WordB]],
      Seqs [WordB, LitI ''corresponding author'', WordB],
      Alts [Lit ''@'', LitI ''email'', LitI ''telephone'', Seq (LitI ''tel'') (Opt (Lit ''.''))],
      Seqs [Digit, Digit, Star Digit, OneOf ''- ,'', Digit, Digit, Star Digit]]"

definition looksLikeAffil :: "string \<Rightarrow> bool" where
  "looksLikeAffil s = testAny AFFIL_CUES s"

text \<open>
  \<open>letters / Math.max(1, s.length) >= 0.6\<close>: the quotient of two integers below
  \<open>2^53\<close>, compared exactly.
\<close>

definition lettersRatioOK :: "string \<Rightarrow> bool" where
  "lettersRatioOK s =
     (let letters = length (filter isAlpha s) in
      0.6 \<le> real letters / real (max 1 (length s)))"

definition isGoodTitle :: "string \<Rightarrow> bool" where
  "isGoodTitle s =
     (if testAny ignoreAsTitle s then False
      else if looksLikeAffil s then False
      else if list_ex isDigit s then False
      else (let commaCount = length (filter (\<lambda>c. c = CHR '','') s) in
            if 3 \<le> commaCount then False
            else 20 \<le> length s \<and> lettersRatioOK s))"

text \<open>The title loop: the state is \<open>(titleIdx, bestLen)\<close>, \<open>None\<close> for \<open>-1\<close>.\<close>

definition titleStep :: "string \<Rightarrow> nat \<Rightarrow> nat option \<times> nat \<Rightarrow> nat option \<times> nat" where
  "titleStep L i st =
     (if \<not> isGoodTitle L then st
      else if snd st < length L then (Some i, length L)
      else st)"

fun titleLoop :: "string list \<Rightarrow> nat list \<Rightarrow> nat option \<times> nat \<Rightarrow> nat option \<times> nat" where
  "titleLoop lines [] st = st"
| "titleLoop lines (i # is) st = titleLoop lines is (titleStep (lines ! i) i st)"

definition findTitle :: "string list \<Rightarrow> nat option" where
  "findTitle lines = fst (titleLoop lines [0 ..< min (length lines) 20] (None, 0))"

definition looksLikeTitleContinuation :: "string \<Rightarrow> bool" where
  "looksLikeTitleContinuation s =
     (if s = [] then False
      else if test (Seqs [Bol, Star Space, LitI ''by'', WordB]) s then False
      else if isStopCue s then False
      else if looksLikeAffil s then False
      else if list_ex (\<lambda>c. isDigit c \<or> c = CHR ''@'') s then False
      else if list_ex (\<lambda>c. c \<in> set '',:;|'') s then False
      else (let words = splitWs s in
            if length words < 2 \<or> 15 < length words then False
            else lettersRatioOK s))"

text \<open>The \<open>while\<close> loop that skips title continuations; \<open>k\<close> is \<open>3 - skipped\<close>.\<close>

fun skipContinuations :: "string list \<Rightarrow> nat \<Rightarrow> nat \<Rightarrow> nat" where
  "skipContinuations lines i 0 = i"
| "skipContinuations lines i (Suc k) =
     (if i < length lines \<and> looksLikeTitleContinuation (lines ! i)
      then skipContinuations lines (i + 1) k else i)"

definition zoneStart :: "string list \<Rightarrow> nat" where
  "zoneStart lines =
     (case findTitle lines of
        None \<Rightarrow> 0
      | Some titleIdx \<Rightarrow> skipContinuations lines (titleIdx + 1) 3)"

text \<open>The \<open>for\<close> loop over \<open>n\<close> lines from \<open>i\<close>: the first stop cue, if any.\<close>

fun scanStop :: "string list \<Rightarrow> nat \<Rightarrow> nat \<Rightarrow> nat option" where
  "scanStop lines i 0 = None"
| "scanStop lines i (Suc n) =
     (if isStopCue (lines ! i) then Some i else scanStop lines (i + 1) n)"

definition firstStopCue :: "string list \<Rightarrow> nat \<Rightarrow> nat option" where
  "firstStopCue lines start = scanStop lines start (min (length lines) (start + 40) - start)"

definition zoneEnd :: "string list \<Rightarrow> nat \<Rightarrow> nat" where
  "zoneEnd lines start =
     (case firstStopCue lines start of
        Some i \<Rightarrow> i
      | None \<Rightarrow> min (length lines) (start + 12))"

text \<open>\<open>lines.slice(start, end)\<close> for \<open>start\<close> and \<open>end\<close> within the array.\<close>

definition slice :: "nat \<Rightarrow> nat \<Rightarrow> 'a list \<Rightarrow> 'a list" where
  "slice start endIx xs = take (endIx - start) (drop start xs)"

text \<open>The debug output to stderr under \<open>process.env.DEBUG\<close> is not modelled.\<close>

definition sliceAuthorZone :: "string \<Rightarrow> string" where
  "sliceAuthorZone header =
     (let lines = zoneLines header;
          start = zoneStart lines;
          endIx = zoneEnd lines start
      in joinLF (slice start endIx lines))"

text \<open>A header whose first stop cue, Abstract, is the fifteenth line.\<close>

definition longZoneHeader :: string where
  "longZoneHeader = joinLF
     (''Entropy and geometry'' #
      replicate 13 ''x'' @ [''Abstract'', ''y''])"

text \<open>The four characters of a group \<open>(20\d{2}|19\d{2})\<close>.\<close>

definition yearOK :: "char \<Rightarrow> char \<Rightarrow> char \<Rightarrow> char \<Rightarrow> bool" where
  "yearOK y1 y2 y3 y4 = (((y1 = CHR ''2'' \<and> y2 = CHR ''0'') \<or> (y1 = CHR ''1'' \<and> y2 = CHR ''9''))
      \<and> isDigit y3 \<and> isDigit y4)"

section \<open>ensemble.ts: document type, authors, text fields\<close>

text \<open>The ten cue patterns of \<open>preprintSignals\<close>, tested on the lower-cased text.\<close>

definition preprintCues :: "rx list" where
  "preprintCues =
     [Seqs [WordB, Lit ''preprint'', WordB],
      Lit ''has not been peer reviewed'',
      Seqs [WordB, Lit ''ssrn'', WordB],
      Seqs [Lit ''social'', Plus Space, Lit ''science'', Plus Space, Lit ''research'',
            Plus Space, Lit ''network''],
      Alt (Seqs [WordB, Lit ''arxiv'', WordB]) (Lit ''arxiv.org/abs/''),
      Seqs [WordB, Lit ''medrxiv'', WordB],
      Seqs [WordB, Lit ''biorxiv'', WordB],
      Seqs [WordB, Lit ''research'', Star Space, Lit ''square'', WordB],
      Seqs [LitI ''electronic copy available at:'', Star Space, LitI ''ssrn.com''],
      Alts [LitI ''this version posted'', LitI ''first posted'',
            Seqs [LitI ''posted:'', Star Space, Plus (Chr CWord), Plus Space, Digit12,
                  Lit '','', Plus Space, Digit4]]]"

fun countMatches :: "rx list \<Rightarrow> string \<Rightarrow> nat" where
  "countMatches [] t = 0"
| "countMatches (re # res) t = (if test re t then 1 else 0) + countMatches res t"

definition preprintSignals :: "Sections \<Rightarrow> nat" where
  "preprintSignals sections =
     countMatches preprintCues
       (toLowerCase (orEmpty (headerText sections) @ [CHR 0x0A] @ orEmpty (body sections)))"

definition strongPreprintHeuristic :: "Sections \<Rightarrow> string option" where
  "strongPreprintHeuristic sections =
     (if 2 \<le> preprintSignals sections then Some ''Preprint'' else None)"

definition normalizeDocType :: "string option \<Rightarrow> string option" where
  "normalizeDocType s0 =
     (case s0 of
        None \<Rightarrow> None
      | Some s \<Rightarrow>
          if s = [] then None
          else if includesStr (toLowerCase s) ''preprint'' then Some ''Preprint''
          else if includesStr (toLowerCase s) ''conference''
                  \<or> includesStr (toLowerCase s) ''proceedings''
                  \<or> includesStr (toLowerCase s) ''abstract''
          then Some ''Conference Paper''
          else if includesStr (toLowerCase s) ''journal'' then Some ''Journal Article''
          else if includesStr (toLowerCase s) ''thesis''
                  \<or> includesStr (toLowerCase s) ''dissertation''
          then Some ''Thesis''
          else Some (trim s))"

definition ORG_WORDS :: "string list" where
  "ORG_WORDS =
     [''university'', ''univ'', ''institute'', ''department'', ''dept'', ''school'', ''college'',
      ''laboratory'', ''centre'', ''center'', ''hospital'', ''clinic'', ''commission'',
      ''authority'', ''ministry'', ''agency'', ''federal'', ''court'', ''board'', ''foundation'',
      ''trust'', ''unit'', ''division'', ''bureau'', ''office'',
      ''medicine'', ''medical'', ''health'', ''healthcare'', ''science'', ''sciences'',
      ''research'', ''perinatal'', ''neonatal'', ''pediatrics'', ''pediatric'', ''childrens'',
      ''children'' @ [CHR 0x27] @ ''s'',
      ''london'', ''ontario'', ''canada'', ''united'', ''kingdom'', ''usa'']"

definition DOC_LABELS :: "string list" where
  "DOC_LABELS =
     [''original article'', ''research article'', ''review article'', ''systematic review'',
      ''meta-analysis'', ''meta analysis'', ''brief report'', ''short report'',
      ''short communication'', ''case report'', ''editorial'', ''commentary'', ''perspective'',
      ''viewpoint'', ''protocol'', ''special article'', ''open access'', ''letter to the editor'',
      ''technical note'', ''methods article'', ''article info'', ''article information'',
      ''article history'', ''how to cite'', ''correspondence'']"

text \<open>\<open>ps.some(p => x.includes(p))\<close>.\<close>

fun includesAny :: "string \<Rightarrow> string list \<Rightarrow> bool" where
  "includesAny x [] = False"
| "includesAny x (p # ps) = (if includesStr x p then True else includesAny x ps)"

definition isDocLabelLine :: "string \<Rightarrow> bool" where
  "isDocLabelLine s = includesAny (replaceAll (Plus Space) '' '' (toLowerCase s)) DOC_LABELS"

text \<open>\<open>ws.some(w => new RegExp(`\\b${w}\\b`, "i").test(x))\<close>.\<close>

fun testAnyWord :: "string list \<Rightarrow> string \<Rightarrow> bool" where
  "testAnyWord [] x = False"
| "testAnyWord (w # ws) x =
     (if test (Seqs [WordB, LitI w, WordB]) x then True else testAnyWord ws x)"

definition hasOrgCue :: "string \<Rightarrow> bool" where
  "hasOrgCue s = testAnyWord ORG_WORDS (toLowerCase s)"

text \<open>\<open>/^\s*by\s+/i\<close>.\<close>

definition leadingBy :: rx where
  "leadingBy = Seqs [Bol, Star Space, LitI ''by'', Plus Space]"

text \<open>
  \<open>tokenOK\<close>: \<open>/^[A-Z][a-z'\<dots>-]+$/\<close> (the third member of the class, the
  right single quotation mark, is a code unit above 255), \<open>/^[A-Z]\.$/\<close> and
  \<open>/^[A-Z][a-z]+-[A-Z][a-z]+$/\<close>.
\<close>

definition tokenOK :: "string \<Rightarrow> bool" where
  "tokenOK tok =
     (test (Seqs [Bol, Chr CUpper, Plus (Chr (CLowerOr ([CHR 0x27] @ ''-''))), Eol]) tok
      \<or> test (Seqs [Bol, Chr CUpper, Lit ''.'', Eol]) tok
      \<or> test (Seqs [Bol, Chr CUpper, Plus (Chr CLower), Lit ''-'', Chr CUpper,
                    Plus (Chr CLower), Eol]) tok)"

definition isLikelyPersonName :: "string \<Rightarrow> bool" where
  "isLikelyPersonName s =
     (let name = trim (replaceFirst leadingBy [] s) in
      if isDocLabelLine name \<or> hasOrgCue name then False
      else (let tokens = filter (\<lambda>t. t \<noteq> []) (splitWs name) in
            if length tokens < 2 \<or> 5 < length tokens then False
            else max 2 (length tokens - 1) \<le> length (filter tokenOK tokens)))"

text \<open>\<open>/\s*,\s*(PhD|MSc|BSc|MD|MPH|MBA|Ph\.?D\.?)\b/gi\<close>.\<close>

definition dropDegree :: rx where
  "dropDegree = Seqs [Star Space, Lit '','', Star Space,
     Alts [LitI ''PhD'', LitI ''MSc'', LitI ''BSc'', LitI ''MD'', LitI ''MPH'', LitI ''MBA'',
           Seqs [LitI ''Ph'', Opt (Lit ''.''), LitI ''D'', Opt (Lit ''.'')]],
     WordB]"

text \<open>
  The argument of \<open>cleanAuthors\<close>, typed \<open>string[] | null\<close> but passed an
  \<open>any\<close> from the language model: an array (an element that is not a string is
  \<open>None\<close>) or a string; \<open>null\<close> and \<open>undefined\<close> are the \<open>None\<close> of the option.
\<close>

datatype authorsArg = AuthorsArray "string option list" | AuthorsString string

definition normalizeAuthor :: "string option \<Rightarrow> string" where
  "normalizeAuthor s0 =
     trim (replaceAll (Plus Space) '' ''
       (replaceFirst leadingBy [] (replaceAll dropDegree [] (case s0 of None \<Rightarrow> [] | Some s \<Rightarrow> s))))"

text \<open>The de-duplication loop; \<open>seen\<close> holds the lower-cased names already kept.\<close>

fun dedupe :: "string list \<Rightarrow> string list \<Rightarrow> string list" where
  "dedupe [] seen = []"
| "dedupe (n # ns) seen =
     (if toLowerCase n \<in> set seen then dedupe ns seen
      else n # dedupe ns (toLowerCase n # seen))"

text \<open>A non-empty string has a length and no \<open>map\<close>: \<open>a.map\<close> throws a TypeError.\<close>

definition cleanAuthors :: "authorsArg option \<Rightarrow> error + string list option" where
  "cleanAuthors a =
     (case a of
        None \<Rightarrow> Inr None
      | Some (AuthorsString s) \<Rightarrow> if s = [] then Inr None else Inl TypeError
      | Some (AuthorsArray xs) \<Rightarrow>
          if xs = [] then Inr None
          else (let normalized =
                      filter isLikelyPersonName
                        (filter (\<lambda>s. \<not> isDocLabelLine s)
                          (filter (\<lambda>s. 3 \<le> length s) (map normalizeAuthor xs)));
                    out = dedupe normalized []
                in Inr (if out = [] then None else Some (take 24 out))))"

definition qualityTextField :: "string option \<Rightarrow> string \<Rightarrow> string Field" where
  "qualityTextField v prov =
     (let txt = (case v of None \<Rightarrow> None
                 | Some s \<Rightarrow> if s = [] then None else Some (trim (replaceAll (Plus Space) '' '' s)));
          hasLetters = (case txt of None \<Rightarrow> False | Some t \<Rightarrow> t \<noteq> [] \<and> list_ex isAlpha t);
          len = (case txt of None \<Rightarrow> 0 | Some t \<Rightarrow> length t);
          c1 = (if hasLetters \<and> 30 \<le> len then 0.85 else 0.5);
          c2 = (if 1200 < len then max c1 0.9 else c1);
          capped = (case txt of None \<Rightarrow> None
                    | Some t \<Rightarrow> if 1200 < length t then Some (take 1200 t)
                                else if t = [] then None else Some t)
      in \<lparr>fvalue = capped, confidence = c2, provenance = prov\<rparr>)"

definition guessDocumentType :: "Sections \<Rightarrow> string" where
  "guessDocumentType sections =
     (if 2 \<le> preprintSignals sections then ''Preprint''
      else if test (Alt (Seqs [WordB, Lit ''arxiv'', WordB]) (Lit ''arxiv.org/abs/''))
                (toLowerCase (orEmpty (headerText sections)))
      then ''Preprint''
      else if test (Alts [Lit ''proceedings of'', Seq (Lit ''in:'') Space,
                          Seq (Lit ''acm'') WordB, Seq (Lit ''ieee'') WordB,
                          Seq (Lit ''springer'') WordB, Seq (Lit ''aaai'') WordB,
                          Seq (Lit ''neurips'') WordB, Seq (Lit ''icml'') WordB,
                          Seq (Lit ''iclr'') WordB])
                (toLowerCase (orEmpty (headerText sections)))
      then ''Conference Paper''
      else if test (Lit ''doi:10.'') (toLowerCase (orEmpty (headerText sections)))
              \<and> test (Alts [Lit ''vol.'', Lit ''issue'', Lit ''journal'', Lit ''nature'',
                            Lit ''science'', Lit ''elsevier'', Lit ''wiley'', Lit ''springer''])
                    (toLowerCase (orEmpty (headerText sections)))
      then ''Journal Article''
      else if test (Alt (Lit ''thesis'') (Lit ''dissertation''))
                (toLowerCase (orEmpty (headerText sections)))
      then ''Thesis''
      else ''Journal/Conference Article'')"

section \<open>ensemble.ts: sanitizeDocumentDate on values of type any\<close>

text \<open>
  \<open>fuseCandidates\<close> passes \<open>llm?.document_date\<close> to \<open>sanitizeDocumentDate\<close>
  behind the cast \<open>as string | null\<close>, which checks nothing at run time: the value
  is any JSON value. \<open>JNull\<close> is \<open>null\<close> or \<open>undefined\<close>, a number is given by
  its rendering \<open>String(n)\<close>, and an object is a plain one.
\<close>

datatype jsval =
    JNull
  | JBool bool
  | JNum string
  | JStr string
  | JArr "jsval list"
  | JObj

text \<open>\<open>xs.join(",")\<close> on strings.\<close>

fun joinComma :: "string list \<Rightarrow> string" where
  "joinComma [] = []"
| "joinComma [x] = x"
| "joinComma (x # xs) = x @ '','' @ joinComma xs"

text \<open>
  The conversion to a string that \<open>RegExp.prototype.test\<close> and \<open>parseInt\<close>
  apply to their argument; an array joins its elements with commas, \<open>null\<close> and
  \<open>undefined\<close> elements as the empty string.
\<close>

fun toStringJS :: "jsval \<Rightarrow> string" where
  "toStringJS JNull = ''null''"
| "toStringJS (JBool b) = (if b then ''true'' else ''false'')"
| "toStringJS (JNum n) = n"
| "toStringJS (JStr s) = s"
| "toStringJS (JArr xs) =
     joinComma (map (\<lambda>x. case x of JNull \<Rightarrow> [] | _ \<Rightarrow> toStringJS x) xs)"
| "toStringJS JObj = ''[object Object]''"

text \<open>Truthiness: \<open>null\<close>, \<open>false\<close>, \<open>0\<close>, \<open>NaN\<close> and \<open>""\<close> are falsy.\<close>

fun truthy :: "jsval \<Rightarrow> bool" where
  "truthy JNull = False"
| "truthy (JBool b) = b"
| "truthy (JNum n) = (n \<noteq> ''0'' \<and> n \<noteq> ''NaN'')"
| "truthy (JStr s) = (s \<noteq> [])"
| "truthy (JArr xs) = True"
| "truthy JObj = True"

text \<open>\<open>toISODate(v)\<close> on a truthy value: \<open>v.match\<close> exists on strings only.\<close>

fun toISODateAny :: "jsval \<Rightarrow> error + jsval option" where
  "toISODateAny (JStr s) = Inr (map_option JStr (toISODate (Some s)))"
| "toISODateAny v = Inl TypeError"

text \<open>\<open>v.slice(0, n)\<close>: strings and arrays have the method.\<close>

fun sliceAny :: "jsval \<Rightarrow> nat \<Rightarrow> error + jsval" where
  "sliceAny (JStr s) n = Inr (JStr (take n s))"
| "sliceAny (JArr xs) n = Inr (JArr (take n xs))"
| "sliceAny v n = Inl TypeError"

text \<open>The receiver of \<open>v.match(re)\<close>: a string, or a TypeError.\<close>

fun matchReceiver :: "jsval \<Rightarrow> error + string" where
  "matchReceiver (JStr s) = Inr s"
| "matchReceiver v = Inl TypeError"

text \<open>\<open>isValidISO(v)\<close>: the first test converts \<open>v\<close>, the second calls \<open>v.match\<close>.\<close>

definition isValidISOAny :: "jsval \<Rightarrow> error + bool" where
  "isValidISOAny v =
     (if reYear (toStringJS v) then Inr True
      else (case matchReceiver v of Inl e \<Rightarrow> Inl e | Inr s \<Rightarrow> Inr (isValidISO s)))"

text \<open>
  \<open>sanitizeDocumentDate\<close> line by line on a value of type any; \<open>y\<close> is \<open>None\<close>
  for NaN, which passes both comparisons of the year check.
\<close>

definition sanitizeAny :: "nat \<Rightarrow> jsval \<Rightarrow> Sections \<Rightarrow> bool \<Rightarrow> error + jsval option" where
  "sanitizeAny now dateStr sections forceAcceptDayFromHeader =
     (if \<not> truthy dateStr then Inr None
      else
        (case (if isoLike (toStringJS dateStr) then Inr (Some dateStr) else toISODateAny dateStr) of
           Inl e \<Rightarrow> Inl e
         | Inr None \<Rightarrow> Inr None
         | Inr (Some isoV) \<Rightarrow>
             if \<not> truthy isoV then Inr None
             else if \<not> isoLike (toStringJS isoV) then Inr None
             else
               (case sliceAny isoV 4 of
                  Inl e \<Rightarrow> Inl e
                | Inr pre \<Rightarrow>
                    (case parseIntPrefix (toStringJS pre) of
                       None \<Rightarrow>
                         if reDay (toStringJS isoV) \<and> \<not> hasPostedDateEvidence sections
                            \<and> \<not> forceAcceptDayFromHeader
                         then (case matchReceiver isoV of
                                 Inl e \<Rightarrow> Inl e
                               | Inr s \<Rightarrow>
                                   (case ymPrefix s of
                                      Some ym \<Rightarrow> Inr (Some (JStr ym))
                                    | None \<Rightarrow> Inr (Some (JStr ''NaN''))))
                         else (case isValidISOAny isoV of
                                 Inl e \<Rightarrow> Inl e
                               | Inr b \<Rightarrow> Inr (if b then Some isoV else None))
                     | Some y \<Rightarrow>
                         if y < 1900 \<or> now + 1 < y then Inr None
                         else if reDay (toStringJS isoV) \<and> \<not> hasPostedDateEvidence sections
                                 \<and> \<not> forceAcceptDayFromHeader
                         then (case matchReceiver isoV of
                                 Inl e \<Rightarrow> Inl e
                               | Inr s \<Rightarrow>
                                   (case ymPrefix s of
                                      Some ym \<Rightarrow> Inr (Some (JStr ym))
                                    | None \<Rightarrow> Inr (Some (JStr (stringOfNat y)))))
                         else (case isValidISOAny isoV of
                                 Inl e \<Rightarrow> Inl e
                               | Inr b \<Rightarrow> Inr (if b then Some isoV else None))))))"

section \<open>ensemble.ts: fuseCandidates\<close>

text \<open>
  \<open>Partial<Metadata>\<close> as \<open>fuseCandidates\<close> reads it, \<open>ParsedDoc\<close> (its field
  \<open>method\<close> is \<open>parse_method\<close> here; its fields
  \<open>ok\<close> and \<open>sections\<close> are not read) and the language-model result, typed
  \<open>any\<close>: \<open>None\<close> is \<open>null\<close> or \<open>undefined\<close>, a present field holds a string,
  \<open>authors\<close> an array or a string, and \<open>document_date\<close> any JSON value.
\<close>

record Candidates =
  cand_authors :: "string list option"
  cand_document_date :: "string option"

record Meta =
  dateFromHeader :: "bool option"

record ParsedDoc =
  parse_method :: string
  candidates :: Candidates
  meta :: "Meta option"

record LlmResult =
  llm_document_type :: "string option"
  llm_authors :: "authorsArg option"
  llm_document_date :: jsval
  llm_summary :: "string option"
  llm_methods_summary :: "string option"
  llm_findings_summary :: "string option"

record FusedMetadata =
  document_type :: "string Field"
  authors :: "string list Field"
  document_date :: "jsval Field"
  summary :: "string Field"
  methods_summary :: "string Field"
  findings_summary :: "string Field"

text \<open>\<open>parser?.method || "heuristic"\<close>.\<close>

definition methodOrHeuristic :: "ParsedDoc option \<Rightarrow> string" where
  "methodOrHeuristic parser =
     (case parser of
        None \<Rightarrow> ''heuristic''
      | Some p \<Rightarrow> if parse_method p = [] then ''heuristic'' else parse_method p)"

text \<open>\<open>v => (v ? 1 : 0)\<close> on a string or null.\<close>

definition truthyFitness :: "string option \<Rightarrow> real" where
  "truthyFitness v = (case v of None \<Rightarrow> 0 | Some s \<Rightarrow> if s = [] then 0 else 1)"

definition docTypeCandidates :: "ParsedDoc option \<Rightarrow> LlmResult \<Rightarrow> Sections \<Rightarrow> string Field list" where
  "docTypeCandidates parser l sections =
     [\<lparr>fvalue = normalizeDocType (llm_document_type l), confidence = 0.7, provenance = ''llm''\<rparr>,
      \<lparr>fvalue = Some (guessDocumentType sections), confidence = 0.6,
       provenance = methodOrHeuristic parser\<rparr>]"

text \<open>The document type selected by the generic chooser.\<close>

definition chooseDocType :: "ParsedDoc option \<Rightarrow> LlmResult \<Rightarrow> Sections \<Rightarrow> error + string Field" where
  "chooseDocType parser l sections = chooseField (docTypeCandidates parser l sections) truthyFitness"

text \<open>The override \<open>if (strongPreprint && docType.value !== "Preprint") { ... }\<close>.\<close>

definition preprintOverride :: "Sections \<Rightarrow> string Field \<Rightarrow> string Field" where
  "preprintOverride sections docType =
     (if strongPreprintHeuristic sections \<noteq> None \<and> fvalue docType \<noteq> Some ''Preprint''
      then docType\<lparr>fvalue := Some ''Preprint'',
                   confidence := max (confidence docType) 0.9,
                   provenance := ''heuristic''\<rparr>
      else docType)"

text \<open>\<open>parser?.candidates.authors || base.authors || null\<close>: an empty array is truthy.\<close>

definition authorsParsedRaw :: "Candidates \<Rightarrow> ParsedDoc option \<Rightarrow> authorsArg option" where
  "authorsParsedRaw base parser =
     map_option (\<lambda>xs. AuthorsArray (map Some xs))
       (case parser of
          None \<Rightarrow> cand_authors base
        | Some p \<Rightarrow> (case cand_authors (candidates p) of
                       Some xs \<Rightarrow> Some xs
                     | None \<Rightarrow> cand_authors base))"

text \<open>\<open>v => (Array.isArray(v) && v.length ? 1 : 0)\<close>.\<close>

definition authorsFitness :: "string list option \<Rightarrow> real" where
  "authorsFitness v = (case v of None \<Rightarrow> 0 | Some xs \<Rightarrow> if xs = [] then 0 else 1)"

definition fuseAuthors :: "Candidates \<Rightarrow> ParsedDoc option \<Rightarrow> LlmResult \<Rightarrow> error + string list Field" where
  "fuseAuthors base parser l =
     (case cleanAuthors (authorsParsedRaw base parser) of
        Inl e \<Rightarrow> Inl e
      | Inr authorsParsed \<Rightarrow>
          (case cleanAuthors (llm_authors l) of
             Inl e \<Rightarrow> Inl e
           | Inr authorsLLM \<Rightarrow>
               chooseField
                 [\<lparr>fvalue = authorsParsed,
                   confidence = (if authorsParsed \<noteq> None then 0.96 else 0.2),
                   provenance = methodOrHeuristic parser\<rparr>,
                  \<lparr>fvalue = authorsLLM,
                   confidence = (if authorsLLM \<noteq> None then 0.72 else 0.3),
                   provenance = ''llm''\<rparr>]
                 authorsFitness))"

text \<open>\<open>a || b || null\<close> on optional strings: the empty string is falsy.\<close>

definition truthyStr :: "string option \<Rightarrow> bool" where
  "truthyStr x = (case x of None \<Rightarrow> False | Some s \<Rightarrow> s \<noteq> [])"

definition dateParsedRaw :: "Candidates \<Rightarrow> ParsedDoc option \<Rightarrow> string option" where
  "dateParsedRaw base parser =
     (case parser of
        None \<Rightarrow> (if truthyStr (cand_document_date base) then cand_document_date base else None)
      | Some p \<Rightarrow>
          if truthyStr (cand_document_date (candidates p)) then cand_document_date (candidates p)
          else if truthyStr (cand_document_date base) then cand_document_date base
          else None)"

text \<open>\<open>!!(parser as any)?.meta?.dateFromHeader\<close>.\<close>

definition cameFromHeader :: "ParsedDoc option \<Rightarrow> bool" where
  "cameFromHeader parser =
     (case parser of
        None \<Rightarrow> False
      | Some p \<Rightarrow> (case meta p of
                     None \<Rightarrow> False
                   | Some m \<Rightarrow> (case dateFromHeader m of None \<Rightarrow> False | Some b \<Rightarrow> b)))"

text \<open>The optional string as a value: \<open>null\<close> is \<open>JNull\<close>.\<close>

definition ofStringOption :: "string option \<Rightarrow> jsval" where
  "ofStringOption x = (case x of None \<Rightarrow> JNull | Some s \<Rightarrow> JStr s)"

text \<open>\<open>v ? a : b\<close> on a value or null.\<close>

definition truthyOpt :: "jsval option \<Rightarrow> bool" where
  "truthyOpt v = (case v of None \<Rightarrow> False | Some x \<Rightarrow> truthy x)"

text \<open>The fitness of a date; each regular expression converts its argument.\<close>

definition dateFitness :: "jsval option \<Rightarrow> real" where
  "dateFitness v =
     (case v of
        None \<Rightarrow> 0
      | Some x \<Rightarrow>
          if \<not> truthy x then 0
          else if reDay (toStringJS x) then 1
          else if reYearMonth (toStringJS x) then 0.8
          else if reYear (toStringJS x) then 0.6
          else 0.4)"

definition fuseDate :: "nat \<Rightarrow> Candidates \<Rightarrow> ParsedDoc option \<Rightarrow> LlmResult \<Rightarrow> Sections \<Rightarrow> error + jsval Field" where
  "fuseDate now base parser l sections =
     (case sanitizeAny now (ofStringOption (dateParsedRaw base parser)) sections (cameFromHeader parser) of
        Inl e \<Rightarrow> Inl e
      | Inr dateParsed \<Rightarrow>
          (case sanitizeAny now (llm_document_date l) sections False of
             Inl e \<Rightarrow> Inl e
           | Inr dateLLM \<Rightarrow>
               (case chooseField
                       [\<lparr>fvalue = dateParsed,
                         confidence = (if truthyOpt dateParsed then 0.92 else 0.2),
                         provenance = methodOrHeuristic parser\<rparr>,
                        \<lparr>fvalue = dateLLM,
                         confidence = (if truthyOpt dateLLM then 0.7 else 0.3),
                         provenance = ''llm''\<rparr>]
                       dateFitness of
                  Inl e \<Rightarrow> Inl e
                | Inr datePicked \<Rightarrow>
                    (case sanitizeAny now (case fvalue datePicked of None \<Rightarrow> JNull | Some x \<Rightarrow> x)
                            sections (cameFromHeader parser) of
                       Inl e \<Rightarrow> Inl e
                     | Inr finalSanitized \<Rightarrow>
                         Inr (datePicked\<lparr>fvalue := finalSanitized,
                                confidence := (if truthyOpt finalSanitized
                                               then confidence datePicked else 0.2)\<rparr>)))))"

text \<open>
  \<open>fuseCandidates\<close>. The property reads \<open>llm.document_type\<close>, \<open>llm.authors\<close>,
  \<open>llm.summary\<close>, \<open>llm.methods_summary\<close> and \<open>llm.findings_summary\<close> throw a
  TypeError when \<open>llm\<close> is \<open>null\<close> or \<open>undefined\<close>; only
  \<open>llm?.document_date\<close> is guarded.
\<close>

definition fuseCandidates ::
  "nat \<Rightarrow> Candidates \<Rightarrow> ParsedDoc option \<Rightarrow> LlmResult option \<Rightarrow> Sections \<Rightarrow> error + FusedMetadata" where
  "fuseCandidates now base parser llm sections =
     (case llm of
        None \<Rightarrow> Inl TypeError
      | Some l \<Rightarrow>
          (case chooseDocType parser l sections of
             Inl e \<Rightarrow> Inl e
           | Inr chosen \<Rightarrow>
               (case fuseAuthors base parser l of
                  Inl e \<Rightarrow> Inl e
                | Inr authorsF \<Rightarrow>
                    (case fuseDate now base parser l sections of
                       Inl e \<Rightarrow> Inl e
                     | Inr datePicked \<Rightarrow>
                         Inr \<lparr>document_type = preprintOverride sections chosen,
                              authors = authorsF,
                              document_date = datePicked,
                              summary = qualityTextField (llm_summary l) ''llm'',
                              methods_summary = qualityTextField (llm_methods_summary l) ''llm'',
                              findings_summary = qualityTextField (llm_findings_summary l) ''llm''\<rparr>))))"

text \<open>Example inputs of \<open>fuseCandidates\<close>.\<close>

definition emptyLlm :: LlmResult where
  "emptyLlm = \<lparr>llm_document_type = None, llm_authors = None, llm_document_date = JNull,
     llm_summary = None, llm_methods_summary = None, llm_findings_summary = None\<rparr>"

definition emptyBase :: Candidates where
  "emptyBase = \<lparr>cand_authors = None, cand_document_date = None\<rparr>"

definition preprintSections :: Sections where
  "preprintSections = \<lparr>headerText = Some ''SSRN preprint'', body = Some []\<rparr>"

definition dayParser :: ParsedDoc where
  "dayParser = \<lparr>parse_method = ''heuristic'',
     candidates = \<lparr>cand_authors = None, cand_document_date = Some ''2024-05-13''\<rparr>,
     meta = None\<rparr>"


definition journalLlm :: LlmResult where
  "journalLlm = emptyLlm\<lparr>llm_document_type := Some ''Journal Article''\<rparr>"

section \<open>parsers/pdf.ts: the cue-window scan of findRankedDate\<close>

text \<open>
  The constant \<open>MONTH\<close> is itself a capture group, and each pattern wraps it in a
  second one: in \<open>reMDY\<close> the groups are 1 and 2 the month, 3 the day and 4 the
  year; in \<open>reDMY\<close> 1 the day, 2 and 3 the month, 4 the year; in \<open>reMY\<close> 1 and 2
  the month, 3 the year. The class \<open>[\s,.:/\-...]\<close> also holds the en and em dashes,
  code units above 255.
\<close>

definition MONTH :: "nat \<Rightarrow> rx" where
  "MONTH n = Grp n evidenceMonth"

definition datePunct :: rx where
  "datePunct = Star (Chr (CSpaceOr '',.:/-''))"

definition ordinalSuffix :: rx where
  "ordinalSuffix = Opt (Alts [LitI ''st'', LitI ''nd'', LitI ''rd'', LitI ''th''])"

definition reMDY :: rx where
  "reMDY = Seqs [WordB, Grp 1 (MONTH 2), Opt (Lit ''.''), datePunct, Grp 3 Digit12,
                 ordinalSuffix, datePunct, Grp 4 Digit4, WordB]"

definition reDMY :: rx where
  "reDMY = Seqs [WordB, Grp 1 Digit12, ordinalSuffix, datePunct, Grp 2 (MONTH 3),
                 Opt (Lit ''.''), datePunct, Grp 4 Digit4, WordB]"

definition reMY :: rx where
  "reMY = Seqs [WordB, Grp 1 (MONTH 2), Opt (Lit ''.''), datePunct, Grp 3 Digit4, WordB]"

definition cueRe :: rx where
  "cueRe = Seqs [WordB,
     Grp 1 (Alts [Seqs [LitI ''this'', Plus Space, LitI ''version'', Plus Space, LitI ''posted''],
                  LitI ''posted'',
                  Seqs [LitI ''published'', Plus Space, LitI ''online''],
                  LitI ''published'',
                  Seqs [LitI ''available'', Plus Space, LitI ''online''],
                  LitI ''accepted'',
                  LitI ''received'']),
     WordB]"

text \<open>
  The body of the scan for one window: \<open>Some r\<close> when the function returns \<open>r\<close>
  (\<open>toISO\<close> may return null, and the function then returns null), \<open>None\<close> when
  the scan goes on to the next cue.
\<close>

definition windowDate :: "nat \<Rightarrow> string \<Rightarrow> string option option" where
  "windowDate now window =
     (case matchRx reMDY window of
        Some (k, mdy) \<Rightarrow> Some (toISO now (orEmpty (group mdy 3)) (group mdy 1) (group mdy 2))
      | None \<Rightarrow>
          (case matchRx reDMY window of
             Some (k, dmy) \<Rightarrow> Some (toISO now (orEmpty (group dmy 3)) (group dmy 2) (group dmy 1))
           | None \<Rightarrow>
               (case matchRx reMY window of
                  Some (k, my) \<Rightarrow> Some (toISO now (orEmpty (group my 2)) (group my 1) None)
                | None \<Rightarrow>
                    (case parseNumericDate window of
                       Some num \<Rightarrow> if num = [] then None else Some (Some num)
                     | None \<Rightarrow> None))))"

text \<open>
  The \<open>while (true)\<close> loop on one zone; the argument is \<open>zone.slice(searchFrom)\<close>,
  and after a cue at index \<open>k\<close> without a date the search restarts at \<open>k + 1\<close>.
\<close>

fun scanZone :: "nat \<Rightarrow> string \<Rightarrow> string option option" where
  "scanZone now [] = None"
| "scanZone now (c # cs) =
     (case matchRx cueRe (c # cs) of
        None \<Rightarrow> None
      | Some (k, g) \<Rightarrow>
          (case windowDate now (take 180 (drop k (c # cs))) of
             Some r \<Rightarrow> Some r
           | None \<Rightarrow> scanZone now (drop k cs)))"

text \<open>Phase 1 of \<open>findRankedDate\<close>: \<open>None\<close> when it falls through to the
  line-based pass.\<close>

definition cueWindowScan :: "nat \<Rightarrow> string \<Rightarrow> string \<Rightarrow> string option option" where
  "cueWindowScan now header full =
     (case scanZone now (take 12000 header) of
        Some r \<Rightarrow> Some r
      | None \<Rightarrow> scanZone now (take 20000 full))"

section \<open>Verified properties\<close>

subsection \<open>The date sanitizer\<close>

lemma firstMatch_Some: "firstMatch f s = Some r \<Longrightarrow> \<exists>t. f t = Some r"
  by (induction s) (auto split: option.splits)

lemma yearAt_shape: "yearAt s = Some (y, r) \<Longrightarrow> length y = 4 \<and> list_all isDigit y \<and> s = y @ r"
  by (cases s rule: yearAt.cases) (auto split: if_splits simp: isDigit_def)

lemma digits12Sep_shape: "digits12Sep s = Some (m, r) \<Longrightarrow> (length m = 1 \<or> length m = 2) \<and> list_all isDigit m"
  by (cases s rule: digits12Sep.cases) (auto split: if_splits)

lemma digits12_shape: "digits12 s = Some (m, r) \<Longrightarrow> (length m = 1 \<or> length m = 2) \<and> list_all isDigit m"
  by (cases s rule: digits12.cases) (auto split: if_splits)

lemma isoDateAt_shape:
  assumes "isoDateAt s = Some (y, mo, d)"
  shows "length y = 4 \<and> list_all isDigit y \<and> (length mo = 1 \<or> length mo = 2) \<and> list_all isDigit mo
     \<and> (length d = 1 \<or> length d = 2) \<and> list_all isDigit d"
proof -
  from assms obtain r1 sep r2 r3 r4 where
    y: "yearAt s = Some (y, r1)" and "r1 = sep # r2" and
    m: "digits12Sep r2 = Some (mo, r3)" and d: "digits12 r3 = Some (d, r4)"
    unfolding isoDateAt_def by (auto split: option.splits list.splits if_splits)
  show ?thesis
    using yearAt_shape[OF y] digits12Sep_shape[OF m] digits12_shape[OF d] by simp
qed

lemma padStart2_shape:
  "(length m = 1 \<or> length m = 2) \<Longrightarrow> list_all isDigit m \<Longrightarrow>
     length (padStart 2 m) = 2 \<and> list_all isDigit (padStart 2 m)"
  by (auto simp: padStart_def isDigit_def)

lemma reDay_build:
  "length y = 4 \<Longrightarrow> list_all isDigit y \<Longrightarrow> length m = 2 \<Longrightarrow> list_all isDigit m \<Longrightarrow>
   length d = 2 \<Longrightarrow> list_all isDigit d \<Longrightarrow> reDay (y @ ''-'' @ m @ ''-'' @ d)"
  by (simp add: reDay_def nth_append)

lemma toISODate_cases:
  assumes "toISODate s = Some r"
  shows "(\<exists>t y mo d. isoDateAt t = Some (y, mo, d) \<and> r = padStart 4 y @ ''-'' @ padStart 2 mo @ ''-'' @ padStart 2 d)
       \<or> (\<exists>t y rest. yearAt t = Some (y, rest) \<and> r = y @ ''-01-01'')"
  using assms unfolding toISODate_def
  by (auto split: option.splits if_splits dest!: firstMatch_Some)

lemma toISODate_reDay:
  assumes "toISODate s = Some r"
  shows "reDay r"
  using toISODate_cases[OF assms]
proof (elim disjE exE conjE)
  fix t y mo d
  assume a: "isoDateAt t = Some (y, mo, d)"
    and r: "r = padStart 4 y @ ''-'' @ padStart 2 mo @ ''-'' @ padStart 2 d"
  note sh = isoDateAt_shape[OF a]
  have "padStart 4 y = y" using sh by (simp add: padStart_def)
  moreover have "length (padStart 2 mo) = 2 \<and> list_all isDigit (padStart 2 mo)"
    using sh padStart2_shape[of mo] by blast
  moreover have "length (padStart 2 d) = 2 \<and> list_all isDigit (padStart 2 d)"
    using sh padStart2_shape[of d] by blast
  ultimately show "reDay r"
    using sh r reDay_build[of y "padStart 2 mo" "padStart 2 d"] by simp
next
  fix t y rest
  assume a: "yearAt t = Some (y, rest)" and r: "r = y @ ''-01-01''"
  show "reDay r"
    using yearAt_shape[OF a] r reDay_build[of y "''01''" "''01''"] by (simp add: isDigit_def)
qed

lemma normalizeDate_isoLike: "normalizeDate ds = Some v \<Longrightarrow> isoLike v"
  by (auto simp: normalizeDate_def isoLike_def split: if_splits dest: toISODate_reDay)

lemma reDay_take7: "reDay v \<Longrightarrow> reYearMonth (take 7 v) \<and> ymPrefix v = Some (take 7 v) \<and> take 4 (take 7 v) = take 4 v"
  by (auto simp: reDay_def reYearMonth_def ymPrefix_def drop_take list_all_length)


lemma isoLike_nonempty: "isoLike v \<Longrightarrow> v \<noteq> []"
  by (auto simp: isoLike_def reYear_def reYearMonth_def reDay_def)

lemma normalizeDate_nonempty:
  assumes "normalizeDate ds = Some v"
  shows "ds \<noteq> [] \<and> v \<noteq> []"
proof -
  have "v \<noteq> []" using normalizeDate_isoLike[OF assms] by (rule isoLike_nonempty)
  moreover have "ds \<noteq> []"
  proof
    assume "ds = []"
    then have "normalizeDate ds = None"
      by (simp add: normalizeDate_def isoLike_def reYear_def reYearMonth_def reDay_def toISODate_def)
    with assms show False by simp
  qed
  ultimately show ?thesis by simp
qed

lemma sanitize_unfold:
  assumes "normalizeDate ds = Some v"
  shows "sanitizeDocumentDate now (Some ds) sections force =
     (if parseInt (take 4 v) < 1900 \<or> now + 1 < parseInt (take 4 v) then None
      else if reDay v \<and> \<not> hasPostedDateEvidence sections \<and> \<not> force then Some (take 7 v)
      else if isValidISO v then Some v else None)"
  using assms normalizeDate_nonempty[OF assms] normalizeDate_isoLike[OF assms] reDay_take7[of v]
  by (simp add: sanitizeDocumentDate_def Let_def)

lemma sanitize_None:
  "normalizeDate ds = None \<Longrightarrow> sanitizeDocumentDate now (Some ds) sections force = None"
  by (simp add: sanitizeDocumentDate_def)

lemma sanitize_shape:
  assumes "sanitizeDocumentDate now d sections force = Some r"
  shows "isoLike r \<and> 1900 \<le> parseInt (take 4 r) \<and> parseInt (take 4 r) \<le> now + 1"
proof (cases d)
  case None
  with assms show ?thesis by (simp add: sanitizeDocumentDate_def)
next
  case (Some ds)
  show ?thesis
  proof (cases "normalizeDate ds")
    case None
    with assms Some show ?thesis by (simp add: sanitize_None)
  next
    case (Some v)
    note u = sanitize_unfold[OF Some, of now sections force]
    have iso: "isoLike v" by (rule normalizeDate_isoLike[OF Some])
    from assms \<open>d = Some ds\<close> u
    consider "r = take 7 v" "reDay v" "1900 \<le> parseInt (take 4 v)" "parseInt (take 4 v) \<le> now + 1"
      | "r = v" "1900 \<le> parseInt (take 4 v)" "parseInt (take 4 v) \<le> now + 1"
      by (auto split: if_splits)
    then show ?thesis
    proof cases
      case 1
      then show ?thesis using reDay_take7[of v] by (simp add: isoLike_def)
    next
      case 2
      then show ?thesis using iso by simp
    qed
  qed
qed

lemma parseInt4: "parseInt [a, b, c, d] = 1000 * digitVal a + 100 * digitVal b + 10 * digitVal c + digitVal d"
  by (simp add: parseInt_def)

lemma yearAt_range:
  assumes "yearAt t = Some (y, rest)"
  shows "1900 \<le> parseInt y"
proof -
  from assms obtain c d where "y = [CHR ''2'', CHR ''0'', c, d] \<or> y = [CHR ''1'', CHR ''9'', c, d]"
    by (cases t rule: yearAt.cases) (auto split: if_splits)
  then show ?thesis by (auto simp: parseInt4 digitVal_def)
qed

lemma isValidISO_jan1:
  assumes "length y = 4" "list_all isDigit y" "100 \<le> parseInt y"
  shows "isValidISO (y @ ''-01-01'')"
proof -
  have d: "reDay (y @ ''-01-01'')"
    using reDay_build[of y "''01''" "''01''"] assms by (simp add: isDigit_def)
  have ny: "\<not> reYear (y @ ''-01-01'')" using assms by (simp add: reYear_def)
  have m: "parseInt ''01'' = 1" by (simp add: parseInt_def digitVal_def)
  show ?thesis
    using d ny assms m
    by (simp add: isValidISO_def Let_def jsDate_def jsFullYear_def daysInMonth_def)
qed

lemma sanitize_never_bare_year:
  assumes "\<not> isoLike ds" and "sanitizeDocumentDate now (Some ds) sections force = Some r"
  shows "\<not> reYear r"
proof (cases "normalizeDate ds")
  case None
  with assms show ?thesis by (simp add: sanitize_None)
next
  case (Some v)
  then have d: "reDay v" using assms(1) by (auto simp: normalizeDate_def dest: toISODate_reDay)
  from assms(2) sanitize_unfold[OF Some, of now sections force]
  have "r = take 7 v \<or> r = v" by (auto split: if_splits)
  then show ?thesis using d by (auto simp: reYear_def reDay_def)
qed

lemma sanitize_idempotent_when_valid:
  assumes "sanitizeDocumentDate now d sections force = Some r" and "isValidISO r"
  shows "sanitizeDocumentDate now (Some r) sections force = Some r"
proof -
  note sh = sanitize_shape[OF assms(1)]
  then have n: "normalizeDate r = Some r" by (simp add: normalizeDate_def)
  obtain ds where d: "d = Some ds" using assms(1) by (cases d) (auto simp: sanitizeDocumentDate_def)
  obtain v where v: "normalizeDate ds = Some v"
    using assms(1) d by (cases "normalizeDate ds") (auto simp: sanitize_None)
  have "reDay r \<Longrightarrow> force \<or> hasPostedDateEvidence sections"
  proof (rule ccontr)
    assume rd: "reDay r" and nf: "\<not> (force \<or> hasPostedDateEvidence sections)"
    show False
    proof (cases "reDay v")
      case True
      with assms(1) d nf sanitize_unfold[OF v, of now sections force]
      have "r = take 7 v" by (auto split: if_splits)
      then have "length r \<le> 7" by simp
      with rd show False by (simp add: reDay_def)
    next
      case False
      with assms(1) d sanitize_unfold[OF v, of now sections force]
      have "r = v" by (auto split: if_splits)
      with rd False show False by simp
    qed
  qed
  then show ?thesis
    using sanitize_unfold[OF n, of now sections force] sh assms(2) by auto
qed

lemma plain_no_evidence: "\<not> hasPostedDateEvidence plainSections"
  by code_simp

text \<open>
  C1. A value that reaches the day-precision step of \<open>sanitizeDocumentDate\<close> (shape
  YYYY-MM-DD, year within 1900 and \<open>now + 1\<close>) keeps its day only if
  \<open>forceAcceptDayFromHeader\<close> is true or the header and body hold a posted-date
  evidence phrase; otherwise the result is its YYYY-MM prefix, with the same year.
\<close>

theorem sanitize_day_precision:
  assumes "normalizeDate ds = Some v" and "reDay v"
    and "1900 \<le> parseInt (take 4 v)" and "parseInt (take 4 v) \<le> now + 1"
  shows "sanitizeDocumentDate now (Some ds) sections force =
           (if force \<or> hasPostedDateEvidence sections
            then (if isValidISO v then Some v else None)
            else Some (take 7 v))
         \<and> reYearMonth (take 7 v) \<and> take 4 (take 7 v) = take 4 v
         \<and> (\<forall>r. sanitizeDocumentDate now (Some ds) sections force = Some r \<and> reDay r
               \<longrightarrow> force \<or> hasPostedDateEvidence sections)"
proof -
  have eq: "sanitizeDocumentDate now (Some ds) sections force =
           (if force \<or> hasPostedDateEvidence sections
            then (if isValidISO v then Some v else None)
            else Some (take 7 v))"
    using assms by (auto simp: sanitize_unfold[OF assms(1)])
  have ym: "reYearMonth (take 7 v)" "take 4 (take 7 v) = take 4 v"
    using reDay_take7[OF assms(2)] by simp_all
  have "\<not> reDay (take 7 v)" using ym(1) by (simp add: reDay_def reYearMonth_def)
  with eq ym show ?thesis by (auto split: if_splits)
qed

theorem sanitize_day_precision_witness:
  "normalizeDate ''2024-05-13'' = Some ''2024-05-13'' \<and> reDay ''2024-05-13''
   \<and> 1900 \<le> parseInt (take 4 ''2024-05-13'') \<and> parseInt (take 4 ''2024-05-13'') \<le> 2026 + 1
   \<and> sanitizeDocumentDate 2026 (Some ''2024-05-13'') plainSections False = Some ''2024-05''
   \<and> sanitizeDocumentDate 2026 (Some ''2024-05-13'') plainSections True = Some ''2024-05-13''"
proof -
  have h1: "normalizeDate ''2024-05-13'' = Some ''2024-05-13''" by code_simp
  have h2: "reDay ''2024-05-13''" by code_simp
  have h3: "1900 \<le> parseInt (take 4 ''2024-05-13'')" by code_simp
  have h4: "parseInt (take 4 ''2024-05-13'') \<le> 2026 + 1" by code_simp
  have v: "isValidISO ''2024-05-13''" by code_simp
  from sanitize_day_precision[OF h1 h2 h3 h4, of plainSections False]
       sanitize_day_precision[OF h1 h2 h3 h4, of plainSections True]
  show ?thesis using h1 h2 h3 h4 v plain_no_evidence by simp
qed

text \<open>
  C3. \<open>sanitizeDocumentDate\<close> applied to its own output: at the input 2024-13-01
  without evidence the first pass drops the day and returns 2024-13 without checking
  the month, and the second pass rejects 2024-13, so the two passes differ.
\<close>

theorem sanitize_not_idempotent_at_month_13:
  "sanitizeDocumentDate 2026 (Some ''2024-13-01'') plainSections False = Some ''2024-13''
   \<and> sanitizeDocumentDate 2026
        (sanitizeDocumentDate 2026 (Some ''2024-13-01'') plainSections False) plainSections False = None"
  by code_simp

text \<open>
  C10. A date string that is not of the ISO shape, holds no year-separator-month-separator-day
  group but holds a year 19xx or 20xx, is normalised to YYYY-01-01: when the year is
  above \<open>now + 1\<close> the result is null; otherwise it is YYYY-01 without evidence and
  YYYY-01-01 with it. It is never the bare year.
\<close>

theorem sanitize_year_only_text:
  assumes "\<not> isoLike ds" and "firstMatch isoDateAt ds = None"
    and "firstMatch yearAt ds = Some (y, rest)"
  shows "sanitizeDocumentDate now (Some ds) sections force =
           (if now + 1 < parseInt y then None
            else if force \<or> hasPostedDateEvidence sections
            then Some (y @ ''-01-01'') else Some (y @ ''-01''))
         \<and> sanitizeDocumentDate now (Some ds) sections force \<noteq> Some y
         \<and> reYear y"
proof -
  from assms(3) obtain t r where t: "yearAt t = Some (y, r)"
    using firstMatch_Some[of yearAt ds "(y, rest)"] by auto
  note sh = yearAt_shape[OF t] and rg = yearAt_range[OF t]
  have ne: "ds \<noteq> []" using assms(3) by auto
  have n: "normalizeDate ds = Some (y @ ''-01-01'')"
    using assms ne by (simp add: normalizeDate_def toISODate_def)
  have d: "reDay (y @ ''-01-01'')"
    using reDay_build[of y "''01''" "''01''"] sh by (simp add: isDigit_def)
  have v: "isValidISO (y @ ''-01-01'')"
    using isValidISO_jan1[of y] sh rg by simp
  have t4: "take 4 (y @ ''-01-01'') = y" and t7: "take 7 (y @ ''-01-01'') = y @ ''-01''"
    using sh by simp_all
  have eq: "sanitizeDocumentDate now (Some ds) sections force =
           (if now + 1 < parseInt y then None
            else if force \<or> hasPostedDateEvidence sections
            then Some (y @ ''-01-01'') else Some (y @ ''-01''))"
    using sanitize_unfold[OF n, of now sections force, unfolded t4 t7] d v rg by auto
  have "reYear y" using sh by (simp add: reYear_def)
  with eq show ?thesis by auto
qed

theorem sanitize_year_only_text_witness:
  "\<not> isoLike ''published in 2024'' \<and> firstMatch isoDateAt ''published in 2024'' = None
   \<and> firstMatch yearAt ''published in 2024'' = Some (''2024'', [])
   \<and> sanitizeDocumentDate 2026 (Some ''published in 2024'') plainSections False = Some ''2024-01''
   \<and> sanitizeDocumentDate 2026 (Some ''published in 2024'') plainSections True = Some ''2024-01-01''"
proof -
  have h1: "\<not> isoLike ''published in 2024''" by code_simp
  have h2: "firstMatch isoDateAt ''published in 2024'' = None" by code_simp
  have h3: "firstMatch yearAt ''published in 2024'' = Some (''2024'', [])" by code_simp
  have h4: "\<not> 2026 + 1 < parseInt ''2024''" by code_simp
  have e: "\<not> hasPostedDateEvidence plainSections" by code_simp
  from sanitize_year_only_text[OF h1 h2 h3, of 2026 plainSections False]
       sanitize_year_only_text[OF h1 h2 h3, of 2026 plainSections True]
  show ?thesis using h1 h2 h3 h4 e by simp
qed

text \<open>
  C10, for every year 19xx or 20xx: the string \<open>published in 2099\<close> meets the
  conditions, and in 2026 the result is null with and without evidence, neither
  2099-01 nor 2099-01-01.
\<close>

theorem sanitize_year_only_text_counterexample:
  "\<not> isoLike ''published in 2099'' \<and> firstMatch isoDateAt ''published in 2099'' = None
   \<and> firstMatch yearAt ''published in 2099'' = Some (''2099'', [])
   \<and> sanitizeDocumentDate 2026 (Some ''published in 2099'') plainSections False = None
   \<and> sanitizeDocumentDate 2026 (Some ''published in 2099'') plainSections True = None"
  by code_simp

subsection \<open>The candidate chooser\<close>

lemma orZero_id: "orZero x = x"
  by (simp add: orZero_def)

lemma replaces_iff:
  "replaces f c b \<longleftrightarrow> f (fvalue b) < f (fvalue c)
     \<or> (f (fvalue c) = f (fvalue b) \<and> confidence b < confidence c)"
  by (simp add: replaces_def Let_def orZero_id)

lemma replaces_trans: "replaces f a b \<Longrightarrow> replaces f b c \<Longrightarrow> replaces f a c"
  by (auto simp: replaces_iff)

lemma replaces_trans_weak: "replaces f a b \<Longrightarrow> \<not> replaces f c b \<Longrightarrow> replaces f a c"
  by (auto simp: replaces_iff)

lemma chooseLoop_first_best:
  "\<exists>pre post. best # cs = pre @ chooseLoop f best cs # post
     \<and> (\<forall>x \<in> set pre. replaces f (chooseLoop f best cs) x)
     \<and> (\<forall>x \<in> set post. \<not> replaces f x (chooseLoop f best cs))"
proof (induction cs arbitrary: best)
  case Nil
  have "[best] = [] @ chooseLoop f best [] # []
     \<and> (\<forall>x \<in> set []. replaces f (chooseLoop f best []) x)
     \<and> (\<forall>x \<in> set []. \<not> replaces f x (chooseLoop f best []))" by simp
  then show ?case by blast
next
  case (Cons c cs)
  let ?b = "chooseLoop f best (c # cs)"
  show ?case
  proof (cases "replaces f c best")
    case True
    then have b: "?b = chooseLoop f c cs" by simp
    from Cons.IH[of c] obtain pre post where
      s: "c # cs = pre @ chooseLoop f c cs # post"
      and p: "\<forall>x \<in> set pre. replaces f (chooseLoop f c cs) x"
      and q: "\<forall>x \<in> set post. \<not> replaces f x (chooseLoop f c cs)" by blast
    have "replaces f (chooseLoop f c cs) best"
    proof (cases pre)
      case Nil
      have "chooseLoop f c cs = c"
        using s[unfolded Nil append_Nil list.inject] by (rule conjunct1[THEN sym])
      with True show ?thesis by simp
    next
      case (Cons a pre')
      with s have "a = c" by simp
      with p Cons have "replaces f (chooseLoop f c cs) c" by simp
      then show ?thesis using True by (rule replaces_trans)
    qed
    with s p q have "best # c # cs = (best # pre) @ ?b # post
        \<and> (\<forall>x \<in> set (best # pre). replaces f ?b x)
        \<and> (\<forall>x \<in> set post. \<not> replaces f x ?b)"
      unfolding b by simp
    then show ?thesis by blast
  next
    case False
    then have b: "?b = chooseLoop f best cs" by simp
    from Cons.IH[of best] obtain pre post where
      s: "best # cs = pre @ chooseLoop f best cs # post"
      and p: "\<forall>x \<in> set pre. replaces f (chooseLoop f best cs) x"
      and q: "\<forall>x \<in> set post. \<not> replaces f x (chooseLoop f best cs)" by blast
    show ?thesis
    proof (cases pre)
      case Nil
      have e: "chooseLoop f best cs = best"
        using s[unfolded Nil append_Nil list.inject] by (rule conjunct1[THEN sym])
      have e2: "post = cs"
        using s[unfolded Nil append_Nil list.inject] by (rule conjunct2[THEN sym])
      from e e2 q False have "best # c # cs = [] @ ?b # (c # cs)
        \<and> (\<forall>x \<in> set []. replaces f ?b x)
        \<and> (\<forall>x \<in> set (c # cs). \<not> replaces f x ?b)"
        unfolding b by simp
      then show ?thesis by blast
    next
      case (Cons a pre')
      have a: "a = best"
        using s[unfolded Cons append_Cons list.inject] by (rule conjunct1[THEN sym])
      have cs: "cs = pre' @ chooseLoop f best cs # post"
        using s[unfolded Cons append_Cons list.inject] by (rule conjunct2)
      from p Cons a have "replaces f (chooseLoop f best cs) best" by simp
      then have "replaces f (chooseLoop f best cs) c" using False by (rule replaces_trans_weak)
      moreover have "\<forall>x \<in> set pre'. replaces f (chooseLoop f best cs) x"
        using p Cons by simp
      moreover have "best # c # cs = (best # c # pre') @ chooseLoop f best cs # post"
        using cs by (simp only: append_Cons list.inject)
      ultimately have "best # c # cs = (best # c # pre') @ ?b # post
        \<and> (\<forall>x \<in> set (best # c # pre'). replaces f ?b x)
        \<and> (\<forall>x \<in> set post. \<not> replaces f x ?b)"
        using q \<open>replaces f (chooseLoop f best cs) best\<close> unfolding b by simp
      then show ?thesis by blast
    qed
  qed
qed

text \<open>
  C6. For a non-empty candidate list, \<open>chooseField\<close> returns the first candidate
  \<open>b\<close> of the list that no candidate beats: every candidate listed before it has
  smaller fitness, or equal fitness and smaller confidence, and no candidate listed
  after it has greater fitness, or equal fitness and greater confidence. So on equal
  fitness the higher confidence wins, and on a tie of both the first-listed wins.
\<close>

theorem chooseField_first_best:
  assumes "cands \<noteq> []"
  shows "\<exists>b pre post. chooseField cands f = Inr b \<and> cands = pre @ b # post
           \<and> (\<forall>x \<in> set pre. replaces f b x) \<and> (\<forall>x \<in> set post. \<not> replaces f x b)
           \<and> (\<forall>x \<in> set cands. f (fvalue x) < f (fvalue b)
                  \<or> (f (fvalue x) = f (fvalue b) \<and> confidence x \<le> confidence b))
           \<and> (\<forall>x \<in> set pre. f (fvalue x) = f (fvalue b) \<longrightarrow> confidence x < confidence b)"
proof -
  from assms obtain c cs where c: "cands = c # cs" by (cases cands) auto
  from chooseLoop_first_best[of c cs f] obtain pre post where
    s: "c # cs = pre @ chooseLoop f c cs # post"
    and p: "\<forall>x \<in> set pre. replaces f (chooseLoop f c cs) x"
    and q: "\<forall>x \<in> set post. \<not> replaces f x (chooseLoop f c cs)" by blast
  let ?b = "chooseLoop f c cs"
  have all: "\<forall>x \<in> set cands. f (fvalue x) < f (fvalue ?b)
                  \<or> (f (fvalue x) = f (fvalue ?b) \<and> confidence x \<le> confidence ?b)"
  proof
    fix x assume "x \<in> set cands"
    with c s have "x \<in> set pre \<or> x = ?b \<or> x \<in> set post"
      by (metis Un_iff set_ConsD set_append)
    then show "f (fvalue x) < f (fvalue ?b)
                  \<or> (f (fvalue x) = f (fvalue ?b) \<and> confidence x \<le> confidence ?b)"
      using p q by (auto simp: replaces_iff)
  qed
  have pre: "\<forall>x \<in> set pre. f (fvalue x) = f (fvalue ?b) \<longrightarrow> confidence x < confidence ?b"
    using p by (auto simp: replaces_iff)
  have "chooseField cands f = Inr ?b" using c by (simp add: chooseField_def)
  with c s p q all pre show ?thesis by blast
qed

theorem chooseField_first_best_witness:
  "exampleCands \<noteq> []
   \<and> chooseField exampleCands exampleFitness = Inr (exampleCands ! 1)
   \<and> (\<exists>b pre post. chooseField exampleCands exampleFitness = Inr b
         \<and> exampleCands = pre @ b # post
         \<and> (\<forall>x \<in> set pre. replaces exampleFitness b x)
         \<and> (\<forall>x \<in> set post. \<not> replaces exampleFitness x b))"
proof -
  have h: "exampleCands \<noteq> []" by (simp add: exampleCands_def)
  have e: "chooseField exampleCands exampleFitness = Inr (exampleCands ! 1)" by code_simp
  from chooseField_first_best[OF h, of exampleFitness] h e show ?thesis by blast
qed

lemma chooseField_pair:
  "chooseField [a, b] f = Inr (if replaces f b a then b else a)"
  by (simp add: chooseField_def)

lemma chooseField_pair_equal_fitness:
  assumes "f (fvalue a) = f (fvalue b)"
  shows "chooseField [a, b] f = Inr (if confidence a < confidence b then b else a)"
  using assms by (simp add: chooseField_def replaces_iff)

subsection \<open>Numeric dates\<close>

lemma sep_not_digit: "isSep c \<Longrightarrow> \<not> isDigit c"
  by (auto simp: isSep_def isDigit_def)

lemma sep_not_word: "isSep c \<Longrightarrow> \<not> isWordChar c"
  by (auto simp: isSep_def isWordChar_def isDigit_def isAlpha_def isUpper_def isLower_def)

lemma digit_word: "isDigit c \<Longrightarrow> isWordChar c"
  by (simp add: isWordChar_def)

lemma digit_not_sep: "isDigit c \<Longrightarrow> \<not> isSep c"
  by (auto simp: isSep_def isDigit_def)

lemma yearAt_sep2: "isSep c \<Longrightarrow> yearAt (a # c # r) = None"
  by (cases r rule: yearAt.cases) (auto simp: isSep_def)

lemma yearAt_sep1: "isSep c \<Longrightarrow> yearAt (c # r) = None"
  by (cases "c # r" rule: yearAt.cases) (auto simp: isSep_def)

lemma yearAt_sep3: "isSep c \<Longrightarrow> yearAt (a # b # c # r) = None"
  by (cases r) (auto simp: sep_not_digit)

lemma yearAt_sep4: "isSep c \<Longrightarrow> yearAt (a # b # d # c # r) = None"
  by (auto simp: sep_not_digit)

lemma yearAt_short: "length s < 4 \<Longrightarrow> yearAt s = None"
  by (cases s rule: yearAt.cases) auto


lemma numYMDAt_no_year: "yearAt t = None \<Longrightarrow> numYMDAt pw t = None"
  by (simp add: numYMDAt_def)

lemma numYMAt_no_year: "yearAt t = None \<Longrightarrow> numYMAt pw t = None"
  by (simp add: numYMAt_def)

lemma numYAt_no_year: "yearAt t = None \<Longrightarrow> numYAt pw t = None"
  by (simp add: numYAt_def)

lemma numABYAt_sep: "isSep c \<Longrightarrow> numABYAt pw (c # r) = None"
  by (cases r rule: digits12Sep.cases) (auto simp: numABYAt_def sep_not_digit)

lemma yearOK_yearAt: "yearOK y1 y2 y3 y4 \<Longrightarrow> yearAt (y1 # y2 # y3 # y4 # r) = Some ([y1, y2, y3, y4], r)"
  by (auto simp: yearOK_def)

lemma yearOK_digit: "yearOK y1 y2 y3 y4 \<Longrightarrow> isDigit y1 \<and> isDigit y2 \<and> isDigit y3 \<and> isDigit y4"
  by (auto simp: yearOK_def isDigit_def)

lemmas ysimps = yearAt_sep1 yearAt_sep2 yearAt_sep3 yearAt_sep4 yearAt_short
  numYMDAt_no_year numYMAt_no_year numYAt_no_year

lemma tail_year:
  assumes "yearOK y1 y2 y3 y4"
  shows "firstMatchB numYMDAt False [y1, y2, y3, y4] = None"
    and "firstMatchB numYMAt False [y1, y2, y3, y4] = None"
    and "firstMatchB numYAt False [y1, y2, y3, y4] = Some [y1, y2, y3, y4]"
  using yearOK_yearAt[OF assms, of "[]"] yearOK_digit[OF assms]
  by (simp_all add: ysimps numYMDAt_def numYMAt_def numYAt_def boundaryAt_def digit_word del: yearAt.simps)


lemma digits12Sep_two: "isDigit a \<Longrightarrow> isDigit b \<Longrightarrow> isSep c \<Longrightarrow> digits12Sep (a # b # c # r) = Some ([a, b], r)"
  by simp

lemma digits12Sep_one: "isDigit a \<Longrightarrow> isSep c \<Longrightarrow> digits12Sep (a # c # r) = Some ([a], r)"
  by (cases r) (auto simp: sep_not_digit)

lemma shape_skip:
  assumes ny: "\<And>pw t. yearAt t = None \<Longrightarrow> f pw t = None" and s1: "isSep s1" and s2: "isSep s2"
  shows "firstMatchB f pw (a1 # a2 # s1 # b1 # b2 # s2 # Y) = firstMatchB f False Y"
    and "firstMatchB f pw (a1 # s1 # b1 # b2 # s2 # Y) = firstMatchB f False Y"
    and "firstMatchB f pw (a1 # a2 # s1 # b1 # s2 # Y) = firstMatchB f False Y"
    and "firstMatchB f pw (a1 # s1 # b1 # s2 # Y) = firstMatchB f False Y"
  using s1 s2
  by (simp_all add: ny yearAt_sep1 yearAt_sep2 yearAt_sep3 sep_not_word del: yearAt.simps)


lemma aby_match:
  assumes y: "yearOK y1 y2 y3 y4" and s1: "isSep s1" and s2: "isSep s2"
    and a1: "isDigit a1" and a2: "isDigit a2" and b1: "isDigit b1" and b2: "isDigit b2"
  shows "firstMatchB numABYAt False (a1 # a2 # s1 # b1 # b2 # s2 # [y1, y2, y3, y4])
           = Some ([a1, a2], [b1, b2], [y1, y2, y3, y4])"
    and "firstMatchB numABYAt False (a1 # s1 # b1 # b2 # s2 # [y1, y2, y3, y4])
           = Some ([a1], [b1, b2], [y1, y2, y3, y4])"
    and "firstMatchB numABYAt False (a1 # a2 # s1 # b1 # s2 # [y1, y2, y3, y4])
           = Some ([a1, a2], [b1], [y1, y2, y3, y4])"
    and "firstMatchB numABYAt False (a1 # s1 # b1 # s2 # [y1, y2, y3, y4])
           = Some ([a1], [b1], [y1, y2, y3, y4])"
  using yearOK_yearAt[OF y, of "[]"] s1 s2 a1 a2 b1 b2
  by (simp_all add: numABYAt_def boundaryAt_def digit_word digits12Sep_one digits12Sep_two sep_not_digit
        del: yearAt.simps digits12Sep.simps)

lemma digitChar_digitVal: "isDigit c \<Longrightarrow> digitChar (digitVal c) = c"
  by (auto simp: isDigit_def digitChar_def digitVal_def)

lemma digitVal_lt: "isDigit c \<Longrightarrow> digitVal c < 10"
  by (auto simp: isDigit_def digitVal_def)

lemma parseInt_snoc: "parseInt (xs @ [x]) = 10 * parseInt xs + digitVal x"
  by (simp add: parseInt_def)

lemma parseInt_pos: "list_all isDigit xs \<Longrightarrow> xs \<noteq> [] \<Longrightarrow> hd xs \<noteq> CHR ''0'' \<Longrightarrow> 0 < parseInt xs"
proof (induction xs rule: rev_induct)
  case Nil
  then show ?case by simp
next
  case (snoc x xs)
  show ?case
  proof (cases xs)
    case Nil
    with snoc.prems show ?thesis
      by (auto simp: parseInt_def isDigit_def digitVal_def)
  next
    case (Cons a as)
    with snoc have "0 < parseInt xs" by simp
    then show ?thesis by (simp add: parseInt_snoc)
  qed
qed

lemma stringOfNat_parseInt:
  "list_all isDigit xs \<Longrightarrow> xs \<noteq> [] \<Longrightarrow> hd xs \<noteq> CHR ''0'' \<Longrightarrow> stringOfNat (parseInt xs) = xs"
proof (induction xs rule: rev_induct)
  case Nil
  then show ?case by simp
next
  case (snoc x xs)
  have dx: "isDigit x" using snoc.prems by simp
  show ?case
  proof (cases xs)
    case Nil
    have "parseInt [x] = digitVal x" by (simp add: parseInt_def)
    then show ?thesis
      using Nil digitVal_lt[OF dx] digitChar_digitVal[OF dx] by (simp add: stringOfNat.simps)
  next
    case (Cons a as)
    with snoc.prems have p: "0 < parseInt xs" by (intro parseInt_pos) auto
    from Cons snoc have ih: "stringOfNat (parseInt xs) = xs" by simp
    have "10 \<le> 10 * parseInt xs + digitVal x" using p by simp
    then have "stringOfNat (10 * parseInt xs + digitVal x)
        = stringOfNat ((10 * parseInt xs + digitVal x) div 10) @ [digitChar ((10 * parseInt xs + digitVal x) mod 10)]"
      by (subst stringOfNat.simps) simp
    also have "(10 * parseInt xs + digitVal x) div 10 = parseInt xs"
      using digitVal_lt[OF dx] by simp
    also have "(10 * parseInt xs + digitVal x) mod 10 = digitVal x"
      using digitVal_lt[OF dx] by simp
    finally show ?thesis using ih digitChar_digitVal[OF dx] by (simp add: parseInt_snoc)
  qed
qed


lemma yearAt_whole:
  assumes "yearAt Y = Some (Y, [])"
  obtains y1 y2 y3 y4 where "Y = [y1, y2, y3, y4]" and "yearOK y1 y2 y3 y4"
  using assms by (cases Y rule: yearAt.cases) (auto simp: yearOK_def split: if_splits)

lemma yearOK_string: "yearOK y1 y2 y3 y4 \<Longrightarrow> stringOfNat (parseInt [y1, y2, y3, y4]) = [y1, y2, y3, y4]"
  by (rule stringOfNat_parseInt) (auto simp: yearOK_def isDigit_def)

lemma digits_1_2:
  assumes "list_all isDigit A" and "length A = 1 \<or> length A = 2"
  obtains a1 where "A = [a1]" and "isDigit a1"
  | a1 a2 where "A = [a1, a2]" and "isDigit a1" and "isDigit a2"
proof -
  from assms(2) consider "length A = 1" | "length A = 2" by blast
  then show thesis
  proof cases
    case 1
    then obtain a1 where "A = [a1]" by (cases A) auto
    with assms(1) that(1) show thesis by simp
  next
    case 2
    then obtain a1 a2 where "A = [a1, a2]"
      by (cases A) (auto simp: length_Suc_conv)
    with assms(1) that(2) show thesis by simp
  qed
qed

lemma groups_of_numeric:
  assumes A: "list_all isDigit A" "length A = 1 \<or> length A = 2"
    and B: "list_all isDigit B" "length B = 1 \<or> length B = 2"
    and s: "isSep s1" "isSep s2" and Y: "yearAt Y = Some (Y, [])"
  shows "firstMatchB numYMDAt False (A @ [s1] @ B @ [s2] @ Y) = None"
    and "firstMatchB numABYAt False (A @ [s1] @ B @ [s2] @ Y) = Some (A, B, Y)"
    and "firstMatchB numYMAt False (A @ [s1] @ B @ [s2] @ Y) = None"
    and "firstMatchB numYAt False (A @ [s1] @ B @ [s2] @ Y) = Some Y"
proof -
  from Y obtain y1 y2 y3 y4 where Yd: "Y = [y1, y2, y3, y4]" and ok: "yearOK y1 y2 y3 y4"
    by (rule yearAt_whole)
  note t = tail_year[OF ok]
  note k1 = shape_skip[of numYMDAt, OF numYMDAt_no_year s]
  note k3 = shape_skip[of numYMAt, OF numYMAt_no_year s]
  note k4 = shape_skip[of numYAt, OF numYAt_no_year s]
  note m = aby_match[OF ok s]
  show "firstMatchB numYMDAt False (A @ [s1] @ B @ [s2] @ Y) = None"
    by (rule digits_1_2[OF A]; rule digits_1_2[OF B]) (simp_all only: Yd append_Cons append_Nil k1 t)
  show "firstMatchB numYMAt False (A @ [s1] @ B @ [s2] @ Y) = None"
    by (rule digits_1_2[OF A]; rule digits_1_2[OF B]) (simp_all only: Yd append_Cons append_Nil k3 t)
  show "firstMatchB numYAt False (A @ [s1] @ B @ [s2] @ Y) = Some Y"
    by (rule digits_1_2[OF A]; rule digits_1_2[OF B]) (simp_all only: Yd append_Cons append_Nil k4 t)
  show "firstMatchB numABYAt False (A @ [s1] @ B @ [s2] @ Y) = Some (A, B, Y)"
    by (rule digits_1_2[OF A]; rule digits_1_2[OF B]) (simp_all only: Yd append_Cons append_Nil m)
qed

text \<open>
  C5. A numeric date A-sep-B-sep-Year (A and B of one or two digits, the year 19xx or
  20xx) given to \<open>parseNumericDate\<close>: if A is above 12 and a valid day of month B,
  the result is Year-B-A; else if B is above 12 and a valid day of month A, it is
  Year-A-B; else if A is within 1 and 12 it is Year-A only, without a day; otherwise
  the bare year.
\<close>

theorem parseNumericDate_disambiguation:
  assumes A: "list_all isDigit A" "length A = 1 \<or> length A = 2"
    and B: "list_all isDigit B" "length B = 1 \<or> length B = 2"
    and s: "isSep s1" "isSep s2" and Y: "yearAt Y = Some (Y, [])"
  shows "parseNumericDate (A @ [s1] @ B @ [s2] @ Y) =
     (let a = parseInt A; b = parseInt B; y = parseInt Y in
      if 12 < a \<and> isValidYMD y b a
      then Some (Y @ ''-'' @ padStart 2 (stringOfNat b) @ ''-'' @ padStart 2 (stringOfNat a))
      else if 12 < b \<and> isValidYMD y a b
      then Some (Y @ ''-'' @ padStart 2 (stringOfNat a) @ ''-'' @ padStart 2 (stringOfNat b))
      else if 1 \<le> a \<and> a \<le> 12
      then Some (Y @ ''-'' @ padStart 2 (stringOfNat a))
      else Some Y)"
proof -
  note g = groups_of_numeric[OF A B s Y]
  have sy: "stringOfNat (parseInt Y) = Y"
    using Y by (rule yearAt_whole) (simp add: yearOK_string)
  show ?thesis
    unfolding parseNumericDate_def numericISO_def numericABY_def numericYM_def numericY_def g
    by (simp add: sy Let_def)
qed

theorem parseNumericDate_disambiguation_witness:
  "list_all isDigit ''05'' \<and> (length ''05'' = 1 \<or> length ''05'' = 2)
   \<and> list_all isDigit ''06'' \<and> (length ''06'' = 1 \<or> length ''06'' = 2)
   \<and> isSep CHR ''/'' \<and> yearAt ''2023'' = Some (''2023'', [])
   \<and> parseNumericDate ''05/06/2023'' = Some ''2023-05''"
proof -
  have A: "list_all isDigit ''05''" "length ''05'' = 1 \<or> length ''05'' = 2" by code_simp+
  have B: "list_all isDigit ''06''" "length ''06'' = 1 \<or> length ''06'' = 2" by code_simp+
  have s: "isSep CHR ''/''" by code_simp
  have Y: "yearAt ''2023'' = Some (''2023'', [])" by code_simp
  have a: "parseInt ''05'' = 5" and b: "parseInt ''06'' = 6" by code_simp+
  have p: "padStart 2 (stringOfNat 5) = ''05''" by code_simp
  from parseNumericDate_disambiguation[OF A B s s Y]
  have "parseNumericDate ''05/06/2023'' = Some ''2023-05''"
    by (simp add: a b p)
  with A B s Y show ?thesis by simp
qed

lemma parseNumericDate_day_first: "parseNumericDate ''25/06/2023'' = Some ''2023-06-25''"
  by code_simp

lemma parseNumericDate_month_first: "parseNumericDate ''06-25-2023'' = Some ''2023-06-25''"
  by code_simp


text \<open>
  C4. The year bound of the date ranker, in 2026: for the header
  \<open>Received: 05/06/2099\<close> the cue-window scan returns 2099-05. The numeric date
  goes through \<open>parseNumericDate\<close>, which takes no current year and accepts every
  year from 1900 to 2099, while \<open>toISO\<close> rejects the same year.
\<close>

theorem cueWindowScan_accepts_year_2099:
  "cueWindowScan 2026 ''Received: 05/06/2099'' ''Received: 05/06/2099'' = Some (Some ''2099-05'')
   \<and> parseNumericDate ''2099-06-05'' = Some ''2099-06-05''
   \<and> toISO 2026 ''2099'' (Some ''June'') (Some ''5'') = None
   \<and> toISO 2026 ''1899'' (Some ''June'') (Some ''5'') = None"
  by code_simp

subsection \<open>The author zone\<close>

lemma scanStop_None:
  "scanStop lines i n = None \<longleftrightarrow> (\<forall>j. i \<le> j \<and> j < i + n \<longrightarrow> \<not> isStopCue (lines ! j))"
proof (induction n arbitrary: i)
  case 0
  show ?case by auto
next
  case (Suc n)
  show ?case
  proof (cases "isStopCue (lines ! i)")
    case True
    then show ?thesis by auto
  next
    case False
    have "(\<forall>j. i \<le> j \<and> j < i + Suc n \<longrightarrow> \<not> isStopCue (lines ! j))
      \<longleftrightarrow> (\<forall>j. Suc i \<le> j \<and> j < Suc i + n \<longrightarrow> \<not> isStopCue (lines ! j))"
      using False by (metis Suc_leD Suc_leI add_Suc_shift le_neq_implies_less add_Suc)
    with False Suc.IH[of "i + 1"] show ?thesis by simp
  qed
qed

lemma scanStop_Some:
  "scanStop lines i n = Some k \<Longrightarrow>
     i \<le> k \<and> k < i + n \<and> isStopCue (lines ! k) \<and> (\<forall>j. i \<le> j \<and> j < k \<longrightarrow> \<not> isStopCue (lines ! j))"
proof (induction n arbitrary: i)
  case 0
  then show ?case by simp
next
  case (Suc n)
  show ?case
  proof (cases "isStopCue (lines ! i)")
    case True
    with Suc.prems show ?thesis by auto
  next
    case False
    with Suc.prems have "scanStop lines (i + 1) n = Some k" by simp
    from Suc.IH[OF this] False show ?thesis
      by (metis Suc_eq_plus1 Suc_leD Suc_leI add_Suc_shift le_neq_implies_less)
  qed
qed

lemma scanStop_first:
  assumes "i \<le> k" and "k < i + n" and "isStopCue (lines ! k)"
    and "\<forall>j. i \<le> j \<and> j < k \<longrightarrow> \<not> isStopCue (lines ! j)"
  shows "scanStop lines i n = Some k"
proof (cases "scanStop lines i n")
  case None
  with assms show ?thesis by (simp add: scanStop_None)
next
  case (Some k')
  note s = scanStop_Some[OF Some]
  have "k' = k"
  proof (rule ccontr)
    assume "k' \<noteq> k"
    then consider "k' < k" | "k < k'" by linarith
    then show False using s assms by cases auto
  qed
  with Some show ?thesis by simp
qed


lemma zoneEnd_first_stop_cue:
  "(\<forall>k. start \<le> k \<and> k < min (length lines) (start + 40) \<and> isStopCue (lines ! k)
         \<and> (\<forall>j. start \<le> j \<and> j < k \<longrightarrow> \<not> isStopCue (lines ! j))
       \<longrightarrow> zoneEnd lines start = k)
   \<and> ((\<forall>j. start \<le> j \<and> j < min (length lines) (start + 40) \<longrightarrow> \<not> isStopCue (lines ! j))
       \<longrightarrow> zoneEnd lines start = min (length lines) (start + 12))
   \<and> (lines = zoneLines header \<and> start = zoneStart lines
       \<longrightarrow> sliceAuthorZone header = joinLF (slice start (zoneEnd lines start) lines))"
proof (intro conjI allI impI)
  fix k
  assume a: "start \<le> k \<and> k < min (length lines) (start + 40) \<and> isStopCue (lines ! k)
         \<and> (\<forall>j. start \<le> j \<and> j < k \<longrightarrow> \<not> isStopCue (lines ! j))"
  then have "k < start + (min (length lines) (start + 40) - start)" by linarith
  with a have "firstStopCue lines start = Some k"
    unfolding firstStopCue_def by (intro scanStop_first) auto
  then show "zoneEnd lines start = k" by (simp add: zoneEnd_def)
next
  assume a: "\<forall>j. start \<le> j \<and> j < min (length lines) (start + 40) \<longrightarrow> \<not> isStopCue (lines ! j)"
  have "firstStopCue lines start = None"
    unfolding firstStopCue_def scanStop_None using a by auto
  then show "zoneEnd lines start = min (length lines) (start + 12)" by (simp add: zoneEnd_def)
next
  assume "lines = zoneLines header \<and> start = zoneStart lines"
  then show "sliceAuthorZone header = joinLF (slice start (zoneEnd lines start) lines)"
    by (simp add: sliceAuthorZone_def Let_def)
qed

lemma longZone_lines:
  "zoneLines longZoneHeader =
     [''Entropy and geometry'', ''x'', ''x'', ''x'', ''x'', ''x'', ''x'', ''x'', ''x'', ''x'', ''x'',
      ''x'', ''x'', ''x'', ''Abstract'', ''y'']"
  by code_simp

lemma title_facts:
  "isGoodTitle ''Entropy and geometry''" "\<not> isGoodTitle ''x''"
  "\<not> isGoodTitle ''Abstract''" "\<not> isGoodTitle ''y''"
  by code_simp+

lemma stop_facts:
  "\<not> isStopCue ''x''" "isStopCue ''Abstract''" "\<not> looksLikeTitleContinuation ''x''"
  by code_simp+

lemma longZone_title: "findTitle (zoneLines longZoneHeader) = Some 0"
  unfolding longZone_lines findTitle_def
  by (simp add: titleStep_def title_facts upt_rec)

lemma longZone_start: "zoneStart (zoneLines longZoneHeader) = 1"
  unfolding zoneStart_def longZone_title
  unfolding longZone_lines
  by (simp add: stop_facts eval_nat_numeral)

lemma longZone_first: "firstStopCue (zoneLines longZoneHeader) 1 = Some 14"
  unfolding firstStopCue_def longZone_lines
  by (simp add: stop_facts eval_nat_numeral)

text \<open>
  C7. The end of the author zone against the earliest of \<open>start + 12\<close> and the first
  stop cue: in a header with a title line, thirteen one-letter lines and then
  Abstract, the zone starts at line 1 and ends at line 14, the stop cue, not at
  line 13; the zone returned holds thirteen lines.
\<close>

theorem zoneEnd_past_twelve_lines:
  "findTitle (zoneLines longZoneHeader) = Some 0
   \<and> zoneStart (zoneLines longZoneHeader) = 1
   \<and> firstStopCue (zoneLines longZoneHeader) 1 = Some 14
   \<and> zoneEnd (zoneLines longZoneHeader) 1 = 14
   \<and> zoneEnd (zoneLines longZoneHeader) 1 \<noteq> min (1 + 12) 14
   \<and> sliceAuthorZone longZoneHeader = joinLF (replicate 13 ''x'')"
proof -
  have e: "zoneEnd (zoneLines longZoneHeader) 1 = 14"
    unfolding zoneEnd_def longZone_first by simp
  have z: "sliceAuthorZone longZoneHeader = joinLF (replicate 13 ''x'')"
    unfolding sliceAuthorZone_def Let_def longZone_start e
    unfolding longZone_lines slice_def by (simp add: eval_nat_numeral)
  show ?thesis using longZone_title longZone_start longZone_first e z by simp
qed

subsection \<open>Fusion\<close>

lemma chooseField_two: "\<exists>b. chooseField [x, y] f = Inr b \<and> (b = x \<or> b = y)"
  by (simp add: chooseField_def)

lemma digit_not_space: "isDigit c \<Longrightarrow> \<not> isSpace c"
  by (auto simp: isDigit_def isSpace_def)

lemma parseIntPrefix_digits:
  assumes "list_all isDigit ds" and "ds \<noteq> []"
  shows "parseIntPrefix ds = Some (parseInt ds)"
proof -
  from assms obtain c cs where ds: "ds = c # cs" by (cases ds) auto
  with assms have "\<not> isSpace c" by (simp add: digit_not_space)
  with ds have d: "dropWhile isSpace ds = ds" by simp
  have t: "takeWhile isDigit ds = ds"
    using assms(1) by (simp add: list_all_iff)
  show ?thesis using assms(2) by (simp add: parseIntPrefix_def d t)
qed

lemma isoLike_take4: "isoLike v \<Longrightarrow> list_all isDigit (take 4 v) \<and> take 4 v \<noteq> []"
  by (auto simp: isoLike_def reYear_def reYearMonth_def reDay_def)

lemma isValidISO_reYear: "reYear v \<Longrightarrow> isValidISO v"
  by (simp add: isValidISO_def)

lemma sanitizeAny_str:
  "sanitizeAny now (JStr s) sections force =
     Inr (map_option JStr (sanitizeDocumentDate now (Some s) sections force))"
proof (cases "s = []")
  case True
  then show ?thesis by (simp add: sanitizeAny_def sanitizeDocumentDate_def)
next
  case ne: False
  show ?thesis
  proof (cases "normalizeDate s")
    case None
    then have "\<not> isoLike s" and "toISODate (Some s) = None"
      by (auto simp: normalizeDate_def split: if_splits)
    then show ?thesis using ne None by (simp add: sanitizeAny_def sanitize_None)
  next
    case (Some v)
    note iso = normalizeDate_isoLike[OF Some] and nev = normalizeDate_nonempty[OF Some]
    have pre: "parseIntPrefix (take 4 v) = Some (parseInt (take 4 v))"
      using isoLike_take4[OF iso] by (intro parseIntPrefix_digits) auto
    have first: "(if isoLike (toStringJS (JStr s)) then Inr (Some (JStr s)) else toISODateAny (JStr s))
                   = Inr (Some (JStr v))"
      using Some by (auto simp: normalizeDate_def split: if_splits)
    have valid: "isValidISOAny (JStr v) = Inr (isValidISO v)"
      by (simp add: isValidISOAny_def isValidISO_reYear)
    have ym: "reDay v \<Longrightarrow> ymPrefix v = Some (take 7 v)"
      using reDay_take7[of v] by simp
    show ?thesis
      unfolding sanitizeAny_def first sanitize_unfold[OF Some]
      using ne nev iso pre valid ym by (simp add: Let_def)
  qed
qed

lemma sanitizeAny_opt:
  "sanitizeAny now (ofStringOption x) sections force =
     Inr (map_option JStr (sanitizeDocumentDate now x sections force))"
proof (cases x)
  case None
  then show ?thesis by (simp add: ofStringOption_def sanitizeAny_def sanitizeDocumentDate_def)
next
  case (Some s)
  then show ?thesis by (simp add: ofStringOption_def sanitizeAny_str)
qed

lemma unwrap_JStr: "(case map_option JStr x of None \<Rightarrow> JNull | Some y \<Rightarrow> y) = ofStringOption x"
  by (cases x) (simp_all add: ofStringOption_def)

lemma fuseDate_typed:
  assumes "llm_document_date l = ofStringOption x"
  shows "\<exists>d picked. fuseDate now base parser l sections = Inr d
           \<and> fvalue d = map_option JStr (sanitizeDocumentDate now picked sections (cameFromHeader parser))"
proof -
  let ?p = "sanitizeDocumentDate now (dateParsedRaw base parser) sections (cameFromHeader parser)"
  let ?q = "sanitizeDocumentDate now x sections False"
  let ?cp = "\<lparr>fvalue = map_option JStr ?p,
              confidence = (if truthyOpt (map_option JStr ?p) then 0.92 else 0.2),
              provenance = methodOrHeuristic parser\<rparr>"
  let ?cq = "\<lparr>fvalue = map_option JStr ?q,
              confidence = (if truthyOpt (map_option JStr ?q) then 0.7 else 0.3),
              provenance = ''llm''\<rparr>"
  obtain b where b: "chooseField [?cp, ?cq] dateFitness = Inr b" and bb: "b = ?cp \<or> b = ?cq"
    using chooseField_two[of ?cp ?cq dateFitness] by blast
  then obtain picked where pk: "fvalue b = map_option JStr picked" by auto
  have fin: "(case fvalue b of None \<Rightarrow> JNull | Some y \<Rightarrow> y) = ofStringOption picked"
    unfolding pk by (rule unwrap_JStr)
  have "fuseDate now base parser l sections =
          Inr (b\<lparr>fvalue := map_option JStr (sanitizeDocumentDate now picked sections (cameFromHeader parser)),
                 confidence := (if truthyOpt (map_option JStr (sanitizeDocumentDate now picked sections (cameFromHeader parser)))
                                then confidence b else 0.2)\<rparr>)"
    unfolding fuseDate_def assms sanitizeAny_opt sum.case b fin sanitizeAny_opt by simp
  then show ?thesis by auto
qed


lemma fuseDate_total:
  assumes "llm_document_date l = ofStringOption x"
  shows "\<exists>d. fuseDate now base parser l sections = Inr d"
  using fuseDate_typed[OF assms] by blast

lemma fuse_throws_on_authors_string:
  assumes "llm_authors l = Some (AuthorsString s)" and "s \<noteq> []"
  shows "fuseCandidates now base parser (Some l) sections = Inl TypeError"
proof -
  have p: "\<exists>x. cleanAuthors (authorsParsedRaw base parser) = Inr x"
    by (auto simp: cleanAuthors_def authorsParsedRaw_def Let_def split: option.splits)
  have "cleanAuthors (llm_authors l) = Inl TypeError"
    using assms by (simp add: cleanAuthors_def)
  with p have "fuseAuthors base parser l = Inl TypeError"
    by (auto simp: fuseAuthors_def)
  moreover have "\<exists>c. chooseDocType parser l sections = Inr c"
    by (simp add: chooseDocType_def docTypeCandidates_def chooseField_def)
  ultimately show ?thesis by (auto simp: fuseCandidates_def)
qed

lemma fuse_returns:
  assumes "\<And>s. llm_authors l = Some (AuthorsString s) \<Longrightarrow> s = []"
    and "llm_document_date l = ofStringOption x"
  shows "\<exists>r. fuseCandidates now base parser (Some l) sections = Inr r"
proof -
  have p: "\<exists>x. cleanAuthors (authorsParsedRaw base parser) = Inr x"
    by (auto simp: cleanAuthors_def authorsParsedRaw_def Let_def split: option.splits)
  have q: "\<exists>x. cleanAuthors (llm_authors l) = Inr x"
    using assms(1) by (auto simp: cleanAuthors_def Let_def split: option.splits authorsArg.splits)
  from p q have a: "\<exists>x. fuseAuthors base parser l = Inr x"
    by (auto simp: fuseAuthors_def chooseField_def)
  have c: "\<exists>c. chooseDocType parser l sections = Inr c"
    by (simp add: chooseDocType_def docTypeCandidates_def chooseField_def)
  from a c fuseDate_total[OF assms(2), of now base parser sections] show ?thesis
    by (auto simp: fuseCandidates_def)
qed


lemma journal_date: "llm_document_date journalLlm = ofStringOption None"
  by (simp add: journalLlm_def emptyLlm_def ofStringOption_def)

lemma preprint_chosen:
  assumes "2 \<le> preprintSignals sections"
    and "chooseDocType parser l sections = Inr chosen"
  shows "chosen = \<lparr>fvalue = normalizeDocType (llm_document_type l), confidence = 0.7, provenance = ''llm''\<rparr>
         \<or> chosen = \<lparr>fvalue = Some ''Preprint'', confidence = 0.6, provenance = methodOrHeuristic parser\<rparr>"
  using assms
  by (auto simp: chooseDocType_def docTypeCandidates_def chooseField_def guessDocumentType_def
      split: if_splits)

lemma preprint_always_wins:
  assumes "fuseCandidates now base parser (Some l) sections = Inr r"
    and "2 \<le> preprintSignals sections"
  shows "fvalue (document_type r) = Some ''Preprint''"
proof -
  from assms(1) obtain chosen where c: "chooseDocType parser l sections = Inr chosen"
    and d: "document_type r = preprintOverride sections chosen"
    unfolding fuseCandidates_def by (auto split: sum.splits)
  have "strongPreprintHeuristic sections \<noteq> None"
    using assms(2) by (simp add: strongPreprintHeuristic_def)
  then show ?thesis using d by (simp add: preprintOverride_def)
qed

lemma ex_signals: "2 \<le> preprintSignals preprintSections"
  by code_simp

lemma ex_chosen:
  "chooseDocType (Some dayParser) journalLlm preprintSections =
     Inr \<lparr>fvalue = Some ''Journal Article'', confidence = 0.7, provenance = ''llm''\<rparr>"
  by code_simp

lemma ex_fused_type:
  "map_sum id document_type (fuseCandidates 2026 emptyBase (Some dayParser) (Some journalLlm) preprintSections)
     = Inr \<lparr>fvalue = Some ''Preprint'', confidence = 0.9, provenance = ''heuristic''\<rparr>"
  by code_simp


lemma sanitizeAny_examples:
  "sanitizeAny 2026 (JArr [JStr ''2024'']) plainSections False = Inr (Some (JArr [JStr ''2024'']))"
  "sanitizeAny 2026 (JArr [JStr ''2024-05'']) plainSections False = Inl TypeError"
  "sanitizeAny 2026 (JArr [JStr ''2024'', JStr ''2025'']) plainSections False = Inl TypeError"
  "sanitizeAny 2026 (JNum ''2024'') plainSections False = Inl TypeError"
  "sanitizeAny 2026 (JArr [JStr ''2099'']) plainSections False = Inr None"
  by code_simp+

text \<open>
  C2. \<open>fuseCandidates\<close> on a language-model input that is \<open>null\<close> or
  \<open>undefined\<close>: whatever the other arguments, the first property read
  \<open>llm.document_type\<close> throws a TypeError and no record is returned. (A non-empty
  string for \<open>authors\<close> throws too, lemma \<open>fuse_throws_on_authors_string\<close>; an
  object whose fields are absent, null or of their declared type always yields a
  record, lemma \<open>fuse_returns\<close>.)
\<close>

theorem fuse_throws_on_null_llm:
  "fuseCandidates now base parser None sections = Inl TypeError"
  by (simp add: fuseCandidates_def)

text \<open>
  C8. When at least two of the ten preprint cue patterns match the header and body
  and the document type selected by the generic chooser is not Preprint, the fused
  \<open>document_type\<close> has the value Preprint, the confidence
  \<open>max(previous confidence, 0.9)\<close> and the provenance heuristic.
\<close>

theorem preprint_override:
  assumes "fuseCandidates now base parser (Some l) sections = Inr r"
    and "2 \<le> preprintSignals sections"
    and "chooseDocType parser l sections = Inr chosen"
    and "fvalue chosen \<noteq> Some ''Preprint''"
  shows "document_type r = \<lparr>fvalue = Some ''Preprint'',
           confidence = max (confidence chosen) 0.9, provenance = ''heuristic''\<rparr>"
proof -
  from assms(1,3) have "document_type r = preprintOverride sections chosen"
    unfolding fuseCandidates_def by (auto split: sum.splits)
  moreover have "strongPreprintHeuristic sections \<noteq> None"
    using assms(2) by (simp add: strongPreprintHeuristic_def)
  ultimately show ?thesis
    using assms(4) by (cases chosen) (simp add: preprintOverride_def)
qed

theorem preprint_override_witness:
  "2 \<le> preprintSignals preprintSections
   \<and> chooseDocType (Some dayParser) journalLlm preprintSections =
       Inr \<lparr>fvalue = Some ''Journal Article'', confidence = 0.7, provenance = ''llm''\<rparr>
   \<and> map_sum id document_type
        (fuseCandidates 2026 emptyBase (Some dayParser) (Some journalLlm) preprintSections)
       = Inr \<lparr>fvalue = Some ''Preprint'', confidence = 0.9, provenance = ''heuristic''\<rparr>"
proof -
  obtain r where r: "fuseCandidates 2026 emptyBase (Some dayParser) (Some journalLlm) preprintSections = Inr r"
    using fuse_returns[of journalLlm None 2026 emptyBase "Some dayParser" preprintSections] journal_date
    by (auto simp: journalLlm_def emptyLlm_def)
  have n: "fvalue \<lparr>fvalue = Some ''Journal Article'', confidence = 0.7, provenance = ''llm''\<rparr>
             \<noteq> Some ''Preprint''" by simp
  from preprint_override[OF r ex_signals ex_chosen n]
  have "document_type r = \<lparr>fvalue = Some ''Preprint'', confidence = 0.9, provenance = ''heuristic''\<rparr>"
    by simp
  with r ex_signals ex_chosen show ?thesis by simp
qed

lemma sanitizeAny_result:
  assumes "sanitizeAny now v sections force = Inr (Some r)"
  shows "(\<exists>s. r = JStr s \<and> isoLike s \<and> 1900 \<le> parseInt (take 4 s) \<and> parseInt (take 4 s) \<le> now + 1)
         \<or> (\<exists>xs. v = JArr xs \<and> r = JArr xs \<and> reYear (toStringJS (JArr xs)))"
proof (cases v)
  case JNull
  with assms show ?thesis by (simp add: sanitizeAny_def)
next
  case (JBool b)
  have "\<not> isoLike ''true''"
    by (simp add: isoLike_def reYear_def reYearMonth_def reDay_def isDigit_def)
  with assms JBool show ?thesis by (auto simp: sanitizeAny_def split: if_splits)
next
  case (JNum n)
  with assms show ?thesis by (auto simp: sanitizeAny_def split: if_splits)
next
  case (JStr s)
  with assms obtain s' where "r = JStr s'" and "sanitizeDocumentDate now (Some s) sections force = Some s'"
    by (auto simp: sanitizeAny_str)
  with sanitize_shape[of now "Some s" sections force s'] show ?thesis by simp
next
  case (JArr xs)
  have m: "matchReceiver (JArr xs) = Inl TypeError" by simp
  have t: "toISODateAny (JArr xs) = Inl TypeError" by simp
  from assms JArr have "r = JArr xs \<and> reYear (toStringJS (JArr xs))"
    unfolding sanitizeAny_def isValidISOAny_def m t
    by (auto split: if_splits option.splits sum.splits simp del: toStringJS.simps)
  with JArr show ?thesis by simp
next
  case JObj
  have "\<not> isoLike ''[object Object]''"
    by (simp add: isoLike_def reYear_def reYearMonth_def reDay_def)
  with assms JObj show ?thesis by (auto simp: sanitizeAny_def split: if_splits)
qed

lemma fuseDate_result:
  assumes "fuseDate now base parser l sections = Inr d"
  shows "fvalue d = None
         \<or> (\<exists>s. fvalue d = Some (JStr s) \<and> isoLike s
               \<and> 1900 \<le> parseInt (take 4 s) \<and> parseInt (take 4 s) \<le> now + 1)
         \<or> (\<exists>xs. llm_document_date l = JArr xs \<and> fvalue d = Some (JArr xs)
               \<and> reYear (toStringJS (JArr xs)))"
proof -
  let ?p = "sanitizeDocumentDate now (dateParsedRaw base parser) sections (cameFromHeader parser)"
  from assms obtain dl where dl: "sanitizeAny now (llm_document_date l) sections False = Inr dl"
    unfolding fuseDate_def sanitizeAny_opt by (auto split: sum.splits)
  let ?cp = "\<lparr>fvalue = map_option JStr ?p,
              confidence = (if truthyOpt (map_option JStr ?p) then 0.92 else 0.2),
              provenance = methodOrHeuristic parser\<rparr>"
  let ?cq = "\<lparr>fvalue = dl,
              confidence = (if truthyOpt dl then 0.7 else 0.3),
              provenance = ''llm''\<rparr>"
  obtain b where b: "chooseField [?cp, ?cq] dateFitness = Inr b" and bb: "b = ?cp \<or> b = ?cq"
    using chooseField_two[of ?cp ?cq dateFitness] by blast
  from assms obtain fin where
    fin: "sanitizeAny now (case fvalue b of None \<Rightarrow> JNull | Some y \<Rightarrow> y) sections (cameFromHeader parser) = Inr fin"
    and fd: "fvalue d = fin"
    unfolding fuseDate_def sanitizeAny_opt sum.case dl b by (auto split: sum.splits)
  show ?thesis
  proof (cases fin)
    case None
    with fd show ?thesis by simp
  next
    case (Some r)
    from sanitizeAny_result[OF fin[unfolded Some]]
    consider s where "r = JStr s" "isoLike s" "1900 \<le> parseInt (take 4 s)" "parseInt (take 4 s) \<le> now + 1"
      | xs where "(case fvalue b of None \<Rightarrow> JNull | Some y \<Rightarrow> y) = JArr xs" "r = JArr xs"
          "reYear (toStringJS (JArr xs))"
      by blast
    then show ?thesis
    proof cases
      case 1
      with fd Some show ?thesis by simp
    next
      case 2
      from 2(1) have fb: "fvalue b = Some (JArr xs)" by (cases "fvalue b") auto
      have "fvalue ?cp \<noteq> Some (JArr xs)" by (cases ?p) auto
      with bb fb have "dl = Some (JArr xs)" by auto
      from sanitizeAny_result[OF dl[unfolded this]] have "llm_document_date l = JArr xs" by auto
      with 2 fd Some show ?thesis by simp
    qed
  qed
qed

lemma fuseDate_result_typed:
  assumes "fuseDate now base parser l sections = Inr d"
    and "llm_document_date l = JNull \<or> (\<exists>s. llm_document_date l = JStr s)"
  shows "fvalue d = None
         \<or> (\<exists>s. fvalue d = Some (JStr s) \<and> isoLike s
               \<and> 1900 \<le> parseInt (take 4 s) \<and> parseInt (take 4 s) \<le> now + 1)"
  using fuseDate_result[OF assms(1)] assms(2) by auto




end
